theory Spec2Isabelle
  imports Complex_Main "HOL-Library.Log_Nat" "HOL-Library.Code_Target_Numeral"
begin

section \<open>JavaScript numbers\<close>

text \<open>
  The endpoint \<^verbatim>\<open>src/pages/api/stats.json.ts\<close> computes with JavaScript numbers,
  that is IEEE 754 binary64 values. A number is modelled by its exact rational value, or
  one of the three non-finite values. The sign of zero is not tracked: the handler never
  divides by a computed zero, and \<^verbatim>\<open>JSON.stringify\<close> prints both zeros as \<^verbatim>\<open>0\<close>.
\<close>

datatype jsnum = Fin rat | PosInfinity | NegInfinity | NaN

text \<open>
  \<open>ilog2 x\<close> is the binary exponent of a positive rational: the \<open>e\<close> with
  \<open>2\<^sup>e \<le> x < 2\<^sup>e\<^sup>+\<^sup>1\<close>. It is computed from the bit lengths of numerator and
  denominator, which locate \<open>x\<close> within a factor of four.
\<close>

definition ilog2 :: "rat \<Rightarrow> int" where
  "ilog2 x = (let (p, q) = quotient_of x;
                  e0 = int (floorlog 2 (nat p)) - int (floorlog 2 (nat q))
              in if 2 powi e0 \<le> x then e0 else e0 - 1)"

definition round_half_even :: "rat \<Rightarrow> int" where
  "round_half_even x =
     (let f = \<lfloor>x\<rfloor>; d = x - of_int f
      in if d < 1 / 2 then f else if 1 / 2 < d then f + 1
         else if even f then f else f + 1)"

text \<open>
  Rounding of a positive real to binary64, round-to-nearest with ties to even: the
  significand has 53 bits, so the spacing of representable values around \<open>x\<close> is
  \<open>2\<^sup>e\<^sup>-\<^sup>5\<^sup>2\<close>; below \<open>2\<^sup>-\<^sup>1\<^sup>0\<^sup>2\<^sup>2\<close> (subnormal range) the spacing stays
  \<open>2\<^sup>-\<^sup>1\<^sup>0\<^sup>7\<^sup>4\<close>.
\<close>

definition nearest_double :: "rat \<Rightarrow> rat" where
  "nearest_double x =
     (let e = max (ilog2 x) (- 1022); q = 2 powi (e - 52)
      in of_int (round_half_even (x / q)) * q)"

text \<open>The result of an arithmetic operation whose exact value is \<open>x\<close>; a rounded
  magnitude of \<open>2\<^sup>1\<^sup>0\<^sup>2\<^sup>4\<close> or more overflows to an infinity.\<close>

definition to_double :: "rat \<Rightarrow> jsnum" where
  "to_double x =
     (if x = 0 then Fin 0
      else let y = nearest_double \<bar>x\<bar>
           in if 2 powi 1024 \<le> y then (if 0 < x then PosInfinity else NegInfinity)
              else Fin (if 0 < x then y else - y))"

text \<open>The operators \<^verbatim>\<open>/\<close>, \<^verbatim>\<open>*\<close>, \<^verbatim>\<open>-\<close> and \<^verbatim>\<open>%\<close> on numbers.\<close>

fun js_div :: "jsnum \<Rightarrow> jsnum \<Rightarrow> jsnum" where
  "js_div (Fin a) (Fin b) =
     (if b = 0 then (if a = 0 then NaN else if 0 < a then PosInfinity else NegInfinity)
      else to_double (a / b))"
| "js_div (Fin a) PosInfinity = Fin 0"
| "js_div (Fin a) NegInfinity = Fin 0"
| "js_div PosInfinity (Fin b) = (if 0 \<le> b then PosInfinity else NegInfinity)"
| "js_div NegInfinity (Fin b) = (if 0 \<le> b then NegInfinity else PosInfinity)"
| "js_div _ _ = NaN"

fun js_mul :: "jsnum \<Rightarrow> jsnum \<Rightarrow> jsnum" where
  "js_mul (Fin a) (Fin b) = to_double (a * b)"
| "js_mul (Fin a) PosInfinity = (if a = 0 then NaN else if 0 < a then PosInfinity else NegInfinity)"
| "js_mul (Fin a) NegInfinity = (if a = 0 then NaN else if 0 < a then NegInfinity else PosInfinity)"
| "js_mul PosInfinity (Fin b) = (if b = 0 then NaN else if 0 < b then PosInfinity else NegInfinity)"
| "js_mul NegInfinity (Fin b) = (if b = 0 then NaN else if 0 < b then NegInfinity else PosInfinity)"
| "js_mul PosInfinity PosInfinity = PosInfinity"
| "js_mul NegInfinity NegInfinity = PosInfinity"
| "js_mul PosInfinity NegInfinity = NegInfinity"
| "js_mul NegInfinity PosInfinity = NegInfinity"
| "js_mul _ _ = NaN"

fun js_sub :: "jsnum \<Rightarrow> jsnum \<Rightarrow> jsnum" where
  "js_sub (Fin a) (Fin b) = to_double (a - b)"
| "js_sub (Fin a) PosInfinity = NegInfinity"
| "js_sub (Fin a) NegInfinity = PosInfinity"
| "js_sub PosInfinity (Fin b) = PosInfinity"
| "js_sub NegInfinity (Fin b) = NegInfinity"
| "js_sub PosInfinity NegInfinity = PosInfinity"
| "js_sub NegInfinity PosInfinity = NegInfinity"
| "js_sub _ _ = NaN"

text \<open>The remainder takes the sign of the dividend and is exact (no rounding).\<close>

definition truncate :: "rat \<Rightarrow> int" where
  "truncate x = (if 0 \<le> x then \<lfloor>x\<rfloor> else \<lceil>x\<rceil>)"

fun js_mod :: "jsnum \<Rightarrow> jsnum \<Rightarrow> jsnum" where
  "js_mod (Fin a) (Fin b) = (if b = 0 then NaN else Fin (a - b * of_int (truncate (a / b))))"
| "js_mod (Fin a) PosInfinity = Fin a"
| "js_mod (Fin a) NegInfinity = Fin a"
| "js_mod _ _ = NaN"

text \<open>The comparisons \<^verbatim>\<open>></\<close> and \<^verbatim>\<open>>=\<close>: false whenever an operand is \<^verbatim>\<open>NaN\<close>.\<close>

fun js_gt :: "jsnum \<Rightarrow> jsnum \<Rightarrow> bool" where
  "js_gt NaN _ = False"
| "js_gt _ NaN = False"
| "js_gt (Fin a) (Fin b) = (b < a)"
| "js_gt PosInfinity PosInfinity = False"
| "js_gt PosInfinity _ = True"
| "js_gt _ PosInfinity = False"
| "js_gt NegInfinity _ = False"
| "js_gt (Fin a) NegInfinity = True"

fun js_ge :: "jsnum \<Rightarrow> jsnum \<Rightarrow> bool" where
  "js_ge NaN _ = False"
| "js_ge _ NaN = False"
| "js_ge (Fin a) (Fin b) = (b \<le> a)"
| "js_ge PosInfinity _ = True"
| "js_ge _ NegInfinity = True"
| "js_ge NegInfinity _ = False"
| "js_ge (Fin a) PosInfinity = False"

text \<open>
  \<^verbatim>\<open>Math.round\<close> gives the nearest integer, a tie going towards \<open>+\<infinity>\<close>;
  \<^verbatim>\<open>Math.floor\<close> the integer below; \<^verbatim>\<open>Math.min\<close> gives \<^verbatim>\<open>NaN\<close> as soon as one
  argument is \<^verbatim>\<open>NaN\<close>.
\<close>

fun Math_round :: "jsnum \<Rightarrow> jsnum" where
  "Math_round (Fin x) = Fin (of_int \<lfloor>x + 1 / 2\<rfloor>)"
| "Math_round x = x"

fun Math_floor :: "jsnum \<Rightarrow> jsnum" where
  "Math_floor (Fin x) = Fin (of_int \<lfloor>x\<rfloor>)"
| "Math_floor x = x"

fun Math_min :: "jsnum \<Rightarrow> jsnum \<Rightarrow> jsnum" where
  "Math_min NaN _ = NaN"
| "Math_min _ NaN = NaN"
| "Math_min a b = (if js_ge a b then b else a)"

section \<open>JavaScript strings\<close>

text \<open>
  A string is a list of code units; the model covers the code units below 256 (ASCII
  and Latin-1), which HOL's \<open>char\<close> holds. Among these, \<^verbatim>\<open>trim\<close>, \<^verbatim>\<open>parseInt\<close> and
  the regular-expression class \<^verbatim>\<open>\s\<close> treat tab, line feed, vertical tab, form feed,
  carriage return, space and no-break space as white space; line feed and carriage
  return are the line terminators.
\<close>

definition is_js_whitespace :: "char \<Rightarrow> bool" where
  "is_js_whitespace c = ((of_char c :: nat) \<in> {9, 10, 11, 12, 13, 32, 160})"

definition is_line_terminator :: "char \<Rightarrow> bool" where
  "is_line_terminator c = ((of_char c :: nat) \<in> {10, 13})"

definition trim :: "string \<Rightarrow> string" where
  "trim s = rev (dropWhile is_js_whitespace (rev (dropWhile is_js_whitespace s)))"

definition lower_char :: "char \<Rightarrow> char" where
  "lower_char c =
     (let n = (of_char c :: nat)
      in if (65 \<le> n \<and> n \<le> 90) \<or> (192 \<le> n \<and> n \<le> 222 \<and> n \<noteq> 215)
         then char_of (n + 32) else c)"

definition toLowerCase :: "string \<Rightarrow> string" where
  "toLowerCase s = map lower_char s"

text \<open>
  \<^verbatim>\<open>parseInt(string)\<close> with no radix: leading white space is skipped, a sign is read,
  a prefix \<^verbatim>\<open>0x\<close> or \<^verbatim>\<open>0X\<close> selects radix 16, and the longest run of digits is
  converted. No digit at all gives \<^verbatim>\<open>NaN\<close>; \<^verbatim>\<open>parseInt\<close> never throws.
\<close>

definition digit_of :: "nat \<Rightarrow> char \<Rightarrow> nat option" where
  "digit_of radix c =
     (let n = (of_char c :: nat);
          v = (if 48 \<le> n \<and> n \<le> 57 then Some (n - 48)
               else if 97 \<le> n \<and> n \<le> 122 then Some (n - 87)
               else if 65 \<le> n \<and> n \<le> 90 then Some (n - 55)
               else None)
      in case v of None \<Rightarrow> None | Some d \<Rightarrow> if d < radix then Some d else None)"

definition digits_value :: "nat \<Rightarrow> string \<Rightarrow> nat" where
  "digits_value radix z = foldl (\<lambda>acc c. acc * radix + the (digit_of radix c)) 0 z"

definition parseInt :: "string \<Rightarrow> jsnum" where
  "parseInt str =
     (let s0 = dropWhile is_js_whitespace str;
          negative = (take 1 s0 = ''-'');
          s1 = (if take 1 s0 = ''+'' \<or> take 1 s0 = ''-'' then drop 1 s0 else s0);
          hex = (take 2 s1 = ''0x'' \<or> take 2 s1 = ''0X'');
          s2 = (if hex then drop 2 s1 else s1);
          radix = (if hex then 16 else 10);
          z = takeWhile (\<lambda>c. digit_of radix c \<noteq> None) s2
      in if z = [] then NaN
         else to_double ((if negative then - 1 else 1) * of_nat (digits_value radix z)))"

section \<open>Numbers as text\<close>

definition digit_char :: "nat \<Rightarrow> char" where
  "digit_char d = char_of (48 + d)"

fun decimal_digits :: "nat \<Rightarrow> string" where
  "decimal_digits n =
     (if n < 10 then [digit_char n]
      else decimal_digits (n div 10) @ [digit_char (n mod 10)])"

declare decimal_digits.simps [simp del]

text \<open>
  \<^verbatim>\<open>Number::toString\<close> of an integer of magnitude \<open>10\<^sup>2\<^sup>1\<close> or more uses exponent
  notation with the fewest significant digits \<open>s\<close> (\<open>k\<close> of them) such that
  \<open>s \<times> 10\<^sup>n\<^sup>-\<^sup>k\<close> still rounds to the number; of several such \<open>s\<close> the closest one,
  an even one at a tie. The integer \<open>i\<close> below has \<open>n\<close> digits; the candidates for a
  given \<open>k\<close> are the two \<open>k\<close>-digit truncations around \<open>i\<close> and the next power of ten.
\<close>

definition exponent_candidates :: "nat \<Rightarrow> nat \<Rightarrow> (nat \<times> nat) list" where
  "exponent_candidates i k =
     (let n = length (decimal_digits i); lo = i div 10 ^ (n - k)
      in filter (\<lambda>(s, m). 10 ^ (k - 1) \<le> s \<and> s < 10 ^ k \<and>
                           to_double (of_nat (s * 10 ^ (m - k))) = to_double (of_nat i))
           [(lo, n), (lo + 1, n), (10 ^ (k - 1), n + 1)])"

definition closer_candidate :: "nat \<Rightarrow> nat \<Rightarrow> nat \<times> nat \<Rightarrow> nat \<times> nat \<Rightarrow> nat \<times> nat" where
  "closer_candidate i k a b =
     (let da = \<bar>int (fst a * 10 ^ (snd a - k)) - int i\<bar>;
          db = \<bar>int (fst b * 10 ^ (snd b - k)) - int i\<bar>
      in if db < da \<or> (db = da \<and> even (fst b) \<and> odd (fst a)) then b else a)"

fun shortest_digits :: "nat \<Rightarrow> nat list \<Rightarrow> (nat \<times> nat) option" where
  "shortest_digits i [] = None"
| "shortest_digits i (k # ks) =
     (case exponent_candidates i k of
        [] \<Rightarrow> shortest_digits i ks
      | c # cs \<Rightarrow> Some (foldl (closer_candidate i k) c cs))"

definition exponent_notation :: "nat \<Rightarrow> string" where
  "exponent_notation i =
     (case shortest_digits i [1 ..< 18] of
        None \<Rightarrow> decimal_digits i
      | Some (s, n) \<Rightarrow>
          (let ds = decimal_digits s
           in take 1 ds @ (if length ds = 1 then [] else ''.'' @ drop 1 ds)
              @ ''e+'' @ decimal_digits (n - 1)))"

text \<open>\<^verbatim>\<open>Number::toString\<close> on an integer-valued number, as the template literals of
  \<^verbatim>\<open>formatUptime\<close> apply it to results of \<^verbatim>\<open>Math.floor\<close>.\<close>

definition nat_toString :: "nat \<Rightarrow> string" where
  "nat_toString i = (if i < 10 ^ 21 then decimal_digits i else exponent_notation i)"

fun Number_toString :: "jsnum \<Rightarrow> string" where
  "Number_toString (Fin x) =
     (if x < 0 then ''-'' @ nat_toString (nat (- \<lfloor>x\<rfloor>)) else nat_toString (nat \<lfloor>x\<rfloor>))"
| "Number_toString PosInfinity = ''Infinity''"
| "Number_toString NegInfinity = ''-Infinity''"
| "Number_toString NaN = ''NaN''"

text \<open>
  \<^verbatim>\<open>Number.prototype.toFixed(f)\<close>: a non-finite number prints as its name; the sign is
  split off; a magnitude of \<open>10\<^sup>2\<^sup>1\<close> or more prints as \<^verbatim>\<open>Number::toString\<close> does;
  otherwise the integer \<open>n\<close> closest to \<open>x \<times> 10\<^sup>f\<close> (the larger at a tie) is printed with
  a point before its last \<open>f\<close> digits, padded with zeros to \<open>f + 1\<close> digits.
\<close>

definition fixed_digits :: "nat \<Rightarrow> rat \<Rightarrow> string" where
  "fixed_digits f x =
     (let n = nat \<lfloor>x * 10 ^ f + 1 / 2\<rfloor>;
          m = decimal_digits n;
          m' = replicate (f + 1 - length m) CHR ''0'' @ m
      in if f = 0 then m
         else take (length m' - f) m' @ ''.'' @ drop (length m' - f) m')"

fun toFixed :: "jsnum \<Rightarrow> nat \<Rightarrow> string" where
  "toFixed (Fin x) f =
     (let s = (if x < 0 then ''-'' else []); y = \<bar>x\<bar>
      in s @ (if 10 ^ 21 \<le> y then nat_toString (nat \<lfloor>y\<rfloor>) else fixed_digits f y))"
| "toFixed x f = Number_toString x"

section \<open>The formatters of the endpoint\<close>

text \<open>
  \<^verbatim>\<open>function formatBytes(bytes: number): string {
    const gb = bytes / (1024 * 1024 * 1024);
    if (gb >= 1) return `${gb.toFixed(2)} GB`;
    const mb = bytes / (1024 * 1024);
    return `${mb.toFixed(0)} MB`;
  }\<close>
\<close>

definition formatBytes :: "jsnum \<Rightarrow> string" where
  "formatBytes bytes =
     (let gb = js_div bytes (Fin (1024 * 1024 * 1024))
      in if js_ge gb (Fin 1) then toFixed gb 2 @ '' GB''
         else let mb = js_div bytes (Fin (1024 * 1024))
              in toFixed mb 0 @ '' MB'')"

text \<open>
  \<^verbatim>\<open>function formatUptime(seconds: number): string {
    const days = Math.floor(seconds / 86400);
    const hours = Math.floor((seconds % 86400) / 3600);
    const minutes = Math.floor((seconds % 3600) / 60);
    const parts: string[] = [];
    if (days > 0) parts.push(`${days}d`);
    if (hours > 0) parts.push(`${hours}h`);
    if (minutes > 0) parts.push(`${minutes}m`);
    return parts.join(' ') || '< 1m';
  }\<close>
\<close>

fun join :: "string \<Rightarrow> string list \<Rightarrow> string" where
  "join sep [] = []"
| "join sep [p] = p"
| "join sep (p # ps) = p @ sep @ join sep ps"

definition formatUptime :: "jsnum \<Rightarrow> string" where
  "formatUptime seconds =
     (let days = Math_floor (js_div seconds (Fin 86400));
          hours = Math_floor (js_div (js_mod seconds (Fin 86400)) (Fin 3600));
          minutes = Math_floor (js_div (js_mod seconds (Fin 3600)) (Fin 60));
          parts = (if js_gt days (Fin 0) then [Number_toString days @ ''d''] else [])
                @ (if js_gt hours (Fin 0) then [Number_toString hours @ ''h''] else [])
                @ (if js_gt minutes (Fin 0) then [Number_toString minutes @ ''m''] else []);
          joined = join '' '' parts
      in if joined = [] then ''< 1m'' else joined)"

section \<open>Values and JSON documents\<close>

text \<open>
  The values the handler builds and the documents \<^verbatim>\<open>JSON.parse\<close> returns. An object
  is the list of its own properties in insertion order.
\<close>

datatype jsval =
    JUndefined
  | JNull
  | JBool bool
  | JNum jsnum
  | JStr string
  | JArr "jsval list"
  | JObj "(string \<times> jsval) list"

text \<open>
  \<^verbatim>\<open>JSON.stringify\<close>, up to the concrete text: the result is the document that the
  emitted text denotes. A property whose value serialises to \<^verbatim>\<open>undefined\<close> is left
  out, an array element of that kind becomes \<^verbatim>\<open>null\<close>, and so does every number that
  is not finite.
\<close>

definition undefined_to_null :: "jsval \<Rightarrow> jsval" where
  "undefined_to_null v = (if v = JUndefined then JNull else v)"

fun JSON_stringify :: "jsval \<Rightarrow> jsval" where
  "JSON_stringify (JNum n) = (case n of Fin x \<Rightarrow> JNum (Fin x) | _ \<Rightarrow> JNull)"
| "JSON_stringify (JArr vs) = JArr (map undefined_to_null (map JSON_stringify vs))"
| "JSON_stringify (JObj kvs) =
     JObj (filter (\<lambda>kv. snd kv \<noteq> JUndefined) (map (map_prod id JSON_stringify) kvs))"
| "JSON_stringify v = v"

text \<open>Reading a property \<^verbatim>\<open>v.k\<close>, for a key that no prototype defines (the handler
  reads \<^verbatim>\<open>percentage\<close>, \<^verbatim>\<open>level\<close> and \<^verbatim>\<open>status\<close>): a \<^verbatim>\<open>TypeError\<close>, here
  \<open>None\<close>, on \<^verbatim>\<open>null\<close> and \<^verbatim>\<open>undefined\<close>; \<^verbatim>\<open>undefined\<close> where the property is
  missing.\<close>

fun get_property :: "jsval \<Rightarrow> string \<Rightarrow> jsval option" where
  "get_property JUndefined k = None"
| "get_property JNull k = None"
| "get_property (JObj kvs) k = Some (case map_of kvs k of None \<Rightarrow> JUndefined | Some v \<Rightarrow> v)"
| "get_property v k = Some JUndefined"

definition is_nullish :: "jsval \<Rightarrow> bool" where
  "is_nullish v = (v = JNull \<or> v = JUndefined)"

section \<open>The environment of a request\<close>

text \<open>
  Everything the handler reads from outside: the counters of \<^verbatim>\<open>os\<close>, the files
  \<^verbatim>\<open>fs.readFileSync(path, 'utf8')\<close> can read (\<open>None\<close> where it throws), and the helper
  program \<^verbatim>\<open>termux-battery-status\<close>. The helper, if it can be run, is described by the
  time it runs (\<open>None\<close>: it never exits), its exit status (a helper ended by a signal has
  none, and counts as one with a status other than zero), what \<^verbatim>\<open>JSON.parse\<close> makes of
  its standard output (\<open>None\<close>: a \<^verbatim>\<open>SyntaxError\<close>), and the number of bytes it writes to
  its standard output and standard error, both of which are pipes that \<^verbatim>\<open>execSync\<close> reads.
\<close>

record helper_process =
  run_ms :: "nat option"
  exit_status :: nat
  stdout_json :: "jsval option"
  output_bytes :: nat

record env =
  os_totalmem :: nat
  os_freemem :: nat
  os_loadavg :: "rat \<times> rat \<times> rat"
  process_uptime :: rat
  os_platform :: string
  os_arch :: string
  os_hostname :: string
  os_cpus :: "string list"
  fs_files :: "string \<Rightarrow> string option"
  helper :: "helper_process option"
  now_iso :: string

text \<open>
  \<^verbatim>\<open>execSync('termux-battery-status', { timeout: 3000, encoding: 'utf8',
  stdio: ['pipe', 'pipe', 'pipe'] })\<close> throws (\<open>None\<close>) when the command cannot be run,
  when it runs longer than the timeout and is killed (\<^verbatim>\<open>ETIMEDOUT\<close>), when it writes more
  than \<^verbatim>\<open>maxBuffer\<close> bytes to the pipes and is killed (\<^verbatim>\<open>ENOBUFS\<close>), and when it exits
  with a status other than zero. The call passes no \<^verbatim>\<open>maxBuffer\<close>, so the default of
  \<open>1024 \<times> 1024\<close> bytes is the limit.
\<close>

definition maxBuffer :: nat where
  "maxBuffer = 1024 * 1024"

definition execSync_helper :: "env \<Rightarrow> nat \<Rightarrow> helper_process option" where
  "execSync_helper e timeout_ms =
     (case helper e of
        None \<Rightarrow> None
      | Some p \<Rightarrow>
          if maxBuffer < output_bytes p then None
          else (case run_ms p of
                  None \<Rightarrow> None
                | Some t \<Rightarrow> if timeout_ms < t \<or> exit_status p \<noteq> 0 then None else Some p))"

section \<open>The probes\<close>

subsection \<open>CPU core count and model\<close>

text \<open>
  \<^verbatim>\<open>cpuinfo.match(/^processor\s*:/gm)\<close>: with the flag \<^verbatim>\<open>m\<close> the anchor matches at
  the start of the text and after every line terminator. A match holds only the word,
  white space and the colon, so no second match can start inside it, and the number of
  matches is the number of line starts at which the pattern matches.
\<close>

definition processor_here :: "string \<Rightarrow> bool" where
  "processor_here s =
     (take 9 s = ''processor'' \<and> take 1 (dropWhile is_js_whitespace (drop 9 s)) = '':'')"

fun count_processor :: "bool \<Rightarrow> string \<Rightarrow> nat" where
  "count_processor line_start [] = 0"
| "count_processor line_start (c # cs) =
     (if line_start \<and> processor_here (c # cs) then 1 else 0)
     + count_processor (is_line_terminator c) cs"

text \<open>
  \<^verbatim>\<open>function getCpuCoreCount(): number {
    try {
      const cpuinfo = fs.readFileSync('/proc/cpuinfo', 'utf8');
      const processors = cpuinfo.match(/^processor\s*:/gm);
      if (processors && processors.length > 0) {
        return processors.length;
      }
    } catch {}
    const cpus = os.cpus();
    if (cpus.length > 0) return cpus.length;
    return 8;
  }\<close>
\<close>

definition getCpuCoreCount :: "env \<Rightarrow> nat" where
  "getCpuCoreCount e =
     (let from_cpuinfo =
            (case fs_files e ''/proc/cpuinfo'' of
               None \<Rightarrow> None
             | Some cpuinfo \<Rightarrow>
                 (let processors = count_processor True cpuinfo
                  in if 0 < processors then Some processors else None))
      in case from_cpuinfo of
           Some n \<Rightarrow> n
         | None \<Rightarrow> if 0 < length (os_cpus e) then length (os_cpus e) else 8)"

text \<open>
  \<^verbatim>\<open>/^Hardware\s*:\s*(.+)$/m\<close> and \<^verbatim>\<open>/^model name\s*:\s*(.+)$/m\<close>. After the colon
  the greedy \<^verbatim>\<open>\s*\<close> first takes all the white space (line terminators included) and
  gives characters back one at a time until the group \<^verbatim>\<open>(.+)\<close> finds a character that
  is not a line terminator; the group then runs to the end of that line, where
  \<^verbatim>\<open>$\<close> holds.
\<close>

definition group_at :: "string \<Rightarrow> nat \<Rightarrow> string option" where
  "group_at r j =
     (let t = drop j r
      in if t \<noteq> [] \<and> \<not> is_line_terminator (hd t)
         then Some (takeWhile (\<lambda>c. \<not> is_line_terminator c) t) else None)"

fun group_from :: "string \<Rightarrow> nat \<Rightarrow> string option" where
  "group_from r 0 = group_at r 0"
| "group_from r (Suc j) =
     (case group_at r (Suc j) of Some g \<Rightarrow> Some g | None \<Rightarrow> group_from r j)"

definition label_here :: "string \<Rightarrow> string \<Rightarrow> string option" where
  "label_here label s =
     (if take (length label) s = label
      then (let r = dropWhile is_js_whitespace (drop (length label) s)
            in if take 1 r = '':''
               then group_from (drop 1 r) (length (takeWhile is_js_whitespace (drop 1 r)))
               else None)
      else None)"

fun first_match :: "string \<Rightarrow> bool \<Rightarrow> string \<Rightarrow> string option" where
  "first_match label line_start [] = None"
| "first_match label line_start (c # cs) =
     (case (if line_start then label_here label (c # cs) else None) of
        Some g \<Rightarrow> Some g
      | None \<Rightarrow> first_match label (is_line_terminator c) cs)"

text \<open>
  \<^verbatim>\<open>function getCpuModel(): string {
    try {
      const cpuinfo = fs.readFileSync('/proc/cpuinfo', 'utf8');
      const hardwareMatch = cpuinfo.match(/^Hardware\s*:\s*(.+)$/m);
      if (hardwareMatch) return hardwareMatch[1].trim();
      const modelMatch = cpuinfo.match(/^model name\s*:\s*(.+)$/m);
      if (modelMatch) return modelMatch[1].trim();
    } catch {}
    const cpus = os.cpus();
    if (cpus[0]?.model) return cpus[0].model;
    return 'Google Tensor G2';
  }\<close>
\<close>

definition getCpuModel :: "env \<Rightarrow> string" where
  "getCpuModel e =
     (let from_cpuinfo =
            (case fs_files e ''/proc/cpuinfo'' of
               None \<Rightarrow> None
             | Some cpuinfo \<Rightarrow>
                 (case first_match ''Hardware'' True cpuinfo of
                    Some g \<Rightarrow> Some (trim g)
                  | None \<Rightarrow>
                      (case first_match ''model name'' True cpuinfo of
                         Some g \<Rightarrow> Some (trim g)
                       | None \<Rightarrow> None)))
      in case from_cpuinfo of
           Some m \<Rightarrow> m
         | None \<Rightarrow>
             (case os_cpus e of
                [] \<Rightarrow> ''Google Tensor G2''
              | m # _ \<Rightarrow> if m \<noteq> [] then m else ''Google Tensor G2''))"

subsection \<open>Temperature\<close>

text \<open>
  \<^verbatim>\<open>function getCpuTemperature(): number | null {
    const thermalPaths = [
      '/sys/class/thermal/thermal_zone0/temp',
      '/sys/devices/virtual/thermal/thermal_zone0/temp',
    ];
    for (const path of thermalPaths) {
      try {
        const temp = parseInt(fs.readFileSync(path, 'utf8').trim());
        return temp > 1000 ? temp / 1000 : temp;
      } catch {
        continue;
      }
    }
    return null;
  }\<close>
\<close>

definition thermalPaths :: "string list" where
  "thermalPaths =
     [''/sys/class/thermal/thermal_zone0/temp'',
      ''/sys/devices/virtual/thermal/thermal_zone0/temp'']"

fun read_temperature :: "env \<Rightarrow> string list \<Rightarrow> jsval" where
  "read_temperature e [] = JNull"
| "read_temperature e (path # paths) =
     (case fs_files e path of
        None \<Rightarrow> read_temperature e paths
      | Some content \<Rightarrow>
          (let temp = parseInt (trim content)
           in JNum (if js_gt temp (Fin 1000) then js_div temp (Fin 1000) else temp)))"

definition getCpuTemperature :: "env \<Rightarrow> jsval" where
  "getCpuTemperature e = read_temperature e thermalPaths"

subsection \<open>Battery\<close>

text \<open>
  \<^verbatim>\<open>function getBatteryInfo(): { level: number | null; charging: boolean | null } {
    let level: number | null = null;
    let charging: boolean | null = null;
    try {
      const output = execSync('termux-battery-status', {
        timeout: 3000, encoding: 'utf8', stdio: ['pipe', 'pipe', 'pipe'] });
      const batteryData = JSON.parse(output);
      level = batteryData.percentage ?? batteryData.level;
      charging = batteryData.status === 'CHARGING' || batteryData.status === 'FULL';
      return { level, charging };
    } catch {
    }
    const batteryPaths = [ '/sys/class/power_supply/battery/capacity',
                           '/sys/class/power_supply/BAT0/capacity' ];
    const statusPaths = [ '/sys/class/power_supply/battery/status',
                          '/sys/class/power_supply/BAT0/status' ];
    for (const path of batteryPaths) {
      try { level = parseInt(fs.readFileSync(path, 'utf8').trim()); break; } catch {}
    }
    for (const path of statusPaths) {
      try {
        const status = fs.readFileSync(path, 'utf8').trim().toLowerCase();
        charging = status === 'charging' || status === 'full';
        break;
      } catch {}
    }
    return { level, charging };
  }\<close>

  The two variables are the state of the function. The \<^verbatim>\<open>try\<close> block either returns
  (\<open>Inr\<close>) or throws and leaves the variables as they are at that point (\<open>Inl\<close>).
\<close>

record battery_info =
  level :: jsval
  charging :: jsval

definition helper_timeout_ms :: nat where
  "helper_timeout_ms = 3000"

definition try_helper :: "env \<Rightarrow> battery_info \<Rightarrow> battery_info + battery_info" where
  "try_helper e vars =
     (case execSync_helper e helper_timeout_ms of
        None \<Rightarrow> Inl vars
      | Some p \<Rightarrow>
          (case stdout_json p of
             None \<Rightarrow> Inl vars
           | Some batteryData \<Rightarrow>
               (case get_property batteryData ''percentage'' of
                  None \<Rightarrow> Inl vars
                | Some percentage \<Rightarrow>
                    (case (if is_nullish percentage then get_property batteryData ''level''
                           else Some percentage) of
                       None \<Rightarrow> Inl vars
                     | Some l \<Rightarrow>
                         (case get_property batteryData ''status'' of
                            None \<Rightarrow> Inl (vars\<lparr>level := l\<rparr>)
                          | Some st \<Rightarrow>
                              Inr (vars\<lparr>level := l,
                                charging := JBool (st = JStr ''CHARGING'' \<or> st = JStr ''FULL'')\<rparr>))))))"

definition batteryPaths :: "string list" where
  "batteryPaths =
     [''/sys/class/power_supply/battery/capacity'',
      ''/sys/class/power_supply/BAT0/capacity'']"

definition statusPaths :: "string list" where
  "statusPaths =
     [''/sys/class/power_supply/battery/status'',
      ''/sys/class/power_supply/BAT0/status'']"

fun read_level :: "env \<Rightarrow> string list \<Rightarrow> battery_info \<Rightarrow> battery_info" where
  "read_level e [] vars = vars"
| "read_level e (path # paths) vars =
     (case fs_files e path of
        None \<Rightarrow> read_level e paths vars
      | Some content \<Rightarrow> vars\<lparr>level := JNum (parseInt (trim content))\<rparr>)"

fun read_charging :: "env \<Rightarrow> string list \<Rightarrow> battery_info \<Rightarrow> battery_info" where
  "read_charging e [] vars = vars"
| "read_charging e (path # paths) vars =
     (case fs_files e path of
        None \<Rightarrow> read_charging e paths vars
      | Some content \<Rightarrow>
          (let st = toLowerCase (trim content)
           in vars\<lparr>charging := JBool (st = ''charging'' \<or> st = ''full'')\<rparr>))"

definition getBatteryInfo :: "env \<Rightarrow> battery_info" where
  "getBatteryInfo e =
     (case try_helper e \<lparr>level = JNull, charging = JNull\<rparr> of
        Inr result \<Rightarrow> result
      | Inl vars \<Rightarrow> read_charging e statusPaths (read_level e batteryPaths vars))"

section \<open>The handler\<close>

text \<open>
  \<^verbatim>\<open>export const GET: APIRoute = async () => {
    const totalMem = os.totalmem();
    const freeMem = os.freemem();
    const usedMem = totalMem - freeMem;
    const memUsagePercent = Math.round((usedMem / totalMem) * 100);
    const loadAvg = os.loadavg();
    const uptime = process.uptime();
    const cpuCount = getCpuCoreCount();
    const cpuModel = getCpuModel();
    const cpuUsagePercent = Math.min(100, Math.round((loadAvg[0] / cpuCount) * 100));
    const cpuTemp = getCpuTemperature();
    const battery = getBatteryInfo();
    const stats = {
      device: { name: 'Pixel 7', platform: os.platform(), arch: os.arch(),
                hostname: os.hostname() },
      memory: { total: formatBytes(totalMem), used: formatBytes(usedMem),
                free: formatBytes(freeMem), usagePercent: memUsagePercent },
      cpu: { model: cpuModel, cores: cpuCount, usagePercent: cpuUsagePercent,
             loadAvg: loadAvg.map(l => l.toFixed(2)), temperature: cpuTemp },
      system: { uptime: formatUptime(uptime), uptimeSeconds: Math.floor(uptime) },
      battery: battery,
      timestamp: new Date().toISOString(),
    };
    return new Response(JSON.stringify(stats), {
      status: 200,
      headers: { 'Content-Type': 'application/json',
                 'Cache-Control': 'no-cache, no-store, must-revalidate' },
    });
  };\<close>

  The counters of \<^verbatim>\<open>os\<close> reach JavaScript as numbers, hence through \<open>to_double\<close>. A
  length of an array is below \<open>2\<^sup>3\<^sup>2\<close> and is a number as it stands. The handler is
  \<^verbatim>\<open>async\<close> but awaits nothing: it is a function from the environment to the response.
  The body of the response is kept as the JSON document that its text denotes.

  The source holds an earlier variant of the handler as well, without the helper and
  without \<^verbatim>\<open>/proc/cpuinfo\<close>; it computes the two percentages by the same expressions,
  with \<^verbatim>\<open>os.cpus().length\<close> as the core count.
\<close>

definition memUsagePercent :: "jsnum \<Rightarrow> jsnum \<Rightarrow> jsnum" where
  "memUsagePercent usedMem totalMem = Math_round (js_mul (js_div usedMem totalMem) (Fin 100))"

definition cpuUsagePercent :: "jsnum \<Rightarrow> nat \<Rightarrow> jsnum" where
  "cpuUsagePercent load1 cpuCount =
     Math_min (Fin 100) (Math_round (js_mul (js_div load1 (Fin (of_nat cpuCount))) (Fin 100)))"

definition stats :: "env \<Rightarrow> jsval" where
  "stats e =
     (let totalMem = to_double (of_nat (os_totalmem e));
          freeMem = to_double (of_nat (os_freemem e));
          usedMem = js_sub totalMem freeMem;
          loadAvg = (case os_loadavg e of
                       (l1, l5, l15) \<Rightarrow> (to_double l1, to_double l5, to_double l15));
          uptime = to_double (process_uptime e);
          cpuCount = getCpuCoreCount e;
          cpuModel = getCpuModel e;
          cpuTemp = getCpuTemperature e;
          battery = getBatteryInfo e
      in JObj
          [(''device'', JObj
              [(''name'', JStr ''Pixel 7''),
               (''platform'', JStr (os_platform e)),
               (''arch'', JStr (os_arch e)),
               (''hostname'', JStr (os_hostname e))]),
           (''memory'', JObj
              [(''total'', JStr (formatBytes totalMem)),
               (''used'', JStr (formatBytes usedMem)),
               (''free'', JStr (formatBytes freeMem)),
               (''usagePercent'', JNum (memUsagePercent usedMem totalMem))]),
           (''cpu'', JObj
              [(''model'', JStr cpuModel),
               (''cores'', JNum (Fin (of_nat cpuCount))),
               (''usagePercent'', JNum (cpuUsagePercent (fst loadAvg) cpuCount)),
               (''loadAvg'', JArr (map (\<lambda>l. JStr (toFixed l 2))
                                 [fst loadAvg, fst (snd loadAvg), snd (snd loadAvg)])),
               (''temperature'', cpuTemp)]),
           (''system'', JObj
              [(''uptime'', JStr (formatUptime uptime)),
               (''uptimeSeconds'', JNum (Math_floor uptime))]),
           (''battery'', JObj [(''level'', level battery), (''charging'', charging battery)]),
           (''timestamp'', JStr (now_iso e))])"

record response =
  status :: nat
  headers :: "(string \<times> string) list"
  body :: jsval

definition GET :: "env \<Rightarrow> response" where
  "GET e =
     \<lparr>status = 200,
      headers = [(''Content-Type'', ''application/json''),
                 (''Cache-Control'', ''no-cache, no-store, must-revalidate'')],
      body = JSON_stringify (stats e)\<rparr>"

section \<open>Reading a response, and notions of the specification\<close>

text \<open>The keys of a JSON object in order, and the value under a key.\<close>

fun json_keys :: "jsval \<Rightarrow> string list" where
  "json_keys (JObj kvs) = map fst kvs"
| "json_keys v = []"

fun json_field :: "jsval \<Rightarrow> string \<Rightarrow> jsval option" where
  "json_field (JObj kvs) k = map_of kvs k"
| "json_field v k = None"

fun json_path :: "jsval \<Rightarrow> string list \<Rightarrow> jsval option" where
  "json_path v [] = Some v"
| "json_path v (k # ks) = (case json_field v k of None \<Rightarrow> None | Some w \<Rightarrow> json_path w ks)"





definition spec_memory_usedPercent :: "nat \<Rightarrow> nat \<Rightarrow> jsnum" where
  "spec_memory_usedPercent totalBytes freeBytes =
     Math_round (js_div (js_mul (Fin 100) (js_sub (Fin (of_nat totalBytes)) (Fin (of_nat freeBytes))))
                        (Fin (of_nat totalBytes)))"

text \<open>A byte count as the specification's data model has it: a number that is a
  non-negative integer.\<close>

fun is_byte_count :: "jsval \<Rightarrow> bool" where
  "is_byte_count (JNum (Fin x)) = (0 \<le> x \<and> x = of_int \<lfloor>x\<rfloor>)"
| "is_byte_count v = False"

text \<open>A rational that is a value of binary64, so that \<open>Fin x\<close> is a number: rounding
  leaves it as it is.\<close>

definition is_double :: "rat \<Rightarrow> bool" where
  "is_double x = (to_double x = Fin x)"

text \<open>The shape the specification gives a size in gibibytes: decimal digits, a point,
  exactly two decimal digits, and the suffix \<^verbatim>\<open> GB\<close>. The text is read from its end.\<close>

definition is_digit :: "char \<Rightarrow> bool" where
  "is_digit c = (c \<in> set ''0123456789'')"

definition two_decimals_GB :: "string \<Rightarrow> bool" where
  "two_decimals_GB s =
     (case rev s of
        b # g # sp # d2 # d1 # pt # ds \<Rightarrow>
          [sp, g, b] = '' GB'' \<and> is_digit d2 \<and> is_digit d1 \<and> pt = CHR ''.''
          \<and> ds \<noteq> [] \<and> list_all is_digit ds
      | _ \<Rightarrow> False)"

text \<open>The helper strategy fails when \<^verbatim>\<open>execSync\<close> throws, when \<^verbatim>\<open>JSON.parse\<close> throws, and
  when the parsed document is \<^verbatim>\<open>null\<close>, on which reading a property throws.\<close>

definition helper_fails :: "env \<Rightarrow> bool" where
  "helper_fails e =
     (case execSync_helper e helper_timeout_ms of
        None \<Rightarrow> True
      | Some p \<Rightarrow> (case stdout_json p of None \<Rightarrow> True | Some d \<Rightarrow> d = JNull \<or> d = JUndefined))"

text \<open>The interpretation of a raw thermal-zone reading: above 1000 it is in millidegrees.\<close>

definition spec_celsius :: "jsnum \<Rightarrow> jsnum" where
  "spec_celsius raw = (if js_gt raw (Fin 1000) then js_div raw (Fin 1000) else raw)"

text \<open>The first path of a list of candidates that can be read.\<close>

definition first_readable :: "env \<Rightarrow> string list \<Rightarrow> string option" where
  "first_readable e paths = List.find (\<lambda>p. fs_files e p \<noteq> None) paths"

text \<open>
  A host on which no optional source exists: no file can be read, the helper is not
  installed and \<^verbatim>\<open>os.cpus()\<close> is empty. The examples below are variations of it.
\<close>

definition bare_env :: env where
  "bare_env =
     \<lparr>os_totalmem = 8589934592, os_freemem = 3221225472,
      os_loadavg = (1 / 2, 1 / 4, 1 / 8), process_uptime = 3725,
      os_platform = ''android'', os_arch = ''arm64'', os_hostname = ''localhost'',
      os_cpus = [], fs_files = (\<lambda>p. None), helper = None,
      now_iso = ''2026-01-01T00:00:00.000Z''\<rparr>"

text \<open>Two contents of \<^verbatim>\<open>/proc/cpuinfo\<close>: one with a \<^verbatim>\<open>processor\<close> line for each of
  two cores, one with no such line.\<close>

definition two_processor_lines :: string where
  "two_processor_lines =
     ''processor : 0'' @ [CHR 0x0A] @ ''BogoMIPS : 38.40'' @ [CHR 0x0A] @ ''processor : 1''"

definition no_processor_line :: string where
  "no_processor_line = ''Hardware : Tensor'' @ [CHR 0x0A] @ '' processor : 0''"

text \<open>Contents of pseudo-files as the kernel writes them, each ending in a line feed.\<close>

definition millidegrees_45000 :: string where
  "millidegrees_45000 = ''45000'' @ [CHR 0x0A]"

definition capacity_87 :: string where
  "capacity_87 = ''87'' @ [CHR 0x0A]"

definition status_Charging :: string where
  "status_Charging = ''Charging'' @ [CHR 0x0A]"

text \<open>A helper that prints the document \<open>d\<close>, as a text of 64 bytes, after 120 ms and
  exits with status 0.\<close>

definition helper_printing :: "jsval \<Rightarrow> helper_process" where
  "helper_printing d =
     \<lparr>run_ms = Some 120, exit_status = 0, stdout_json = Some d, output_bytes = 64\<rparr>"

section \<open>Rounding to binary64\<close>

text \<open>
  The exponent function brackets its argument, and is the only exponent that does.
\<close>

lemma floorlog2_bounds:
  assumes "0 < (p::int)"
  shows "(2::rat) powi (int (floorlog 2 (nat p)) - 1) \<le> of_int p"
    and "of_int p < (2::rat) powi (int (floorlog 2 (nat p)))"
proof -
  let ?b = "floorlog 2 (nat p)"
  from assms have np: "0 < nat p" by simp
  from floorlog_bounds[OF np, of 2]
  have lo: "2 ^ (?b - 1) \<le> nat p" and hi: "nat p < 2 ^ ?b" by simp_all
  have bpos: "0 < ?b" using np by (simp add: floorlog_def)
  have "int (2 ^ (?b - 1)) \<le> p" using lo assms by linarith
  then have "(of_int (int (2 ^ (?b - 1)))::rat) \<le> of_int p" by (simp only: of_int_le_iff)
  then have "(2::rat) ^ (?b - 1) \<le> of_int p" by simp
  moreover have "(2::rat) powi (int ?b - 1) = 2 ^ (?b - 1)"
    using bpos by (simp add: power_int_def nat_diff_distrib)
  ultimately show "(2::rat) powi (int ?b - 1) \<le> of_int p" by (simp only:)
  have "p < int (2 ^ ?b)" using hi assms by linarith
  then have "(of_int p::rat) < of_int (int (2 ^ ?b))" by (simp only: of_int_less_iff)
  then show "of_int p < (2::rat) powi (int ?b)" by simp
qed

lemma ilog2_bounds:
  assumes "0 < x"
  shows "2 powi (ilog2 x) \<le> x" and "x < 2 powi (ilog2 x + 1)"
proof -
  obtain p q where pq: "quotient_of x = (p, q)" by (cases "quotient_of x")
  have q: "0 < q" using pq by (rule quotient_of_denom_pos)
  have x: "x = of_int p / of_int q" using pq by (rule quotient_of_div)
  have p: "0 < p" using assms q unfolding x by (simp add: zero_less_divide_iff)
  define bp where "bp = int (floorlog 2 (nat p))"
  define bq where "bq = int (floorlog 2 (nat q))"
  note P = floorlog2_bounds[OF p, folded bp_def]
  note Q = floorlog2_bounds[OF q, folded bq_def]
  have qr: "(0::rat) < of_int q" using q by simp
  have lo: "2 powi (bp - bq - 1) < x"
  proof -
    have "(2::rat) powi (bp - bq - 1) * of_int q < 2 powi (bp - bq - 1) * 2 powi bq"
      using Q(2) by (simp add: mult_strict_left_mono)
    also have "\<dots> = 2 powi (bp - 1)" by (simp flip: power_int_add)
    also have "\<dots> \<le> of_int p" by (rule P(1))
    finally show ?thesis unfolding x using qr by (simp add: pos_less_divide_eq)
  qed
  have hi: "x < 2 powi (bp - bq + 1)"
  proof -
    have "of_int p < (2::rat) powi bp" by (rule P(2))
    also have "\<dots> = 2 powi (bp - bq + 1) * 2 powi (bq - 1)" by (simp flip: power_int_add)
    also have "\<dots> \<le> 2 powi (bp - bq + 1) * of_int q"
      using Q(1) by (simp add: mult_left_mono)
    finally show ?thesis unfolding x using qr by (simp add: pos_divide_less_eq)
  qed
  have il: "ilog2 x = (if 2 powi (bp - bq) \<le> x then bp - bq else bp - bq - 1)"
    by (simp add: ilog2_def pq bp_def bq_def Let_def)
  show "2 powi (ilog2 x) \<le> x" using lo by (simp add: il)
  show "x < 2 powi (ilog2 x + 1)" using hi by (auto simp add: il not_le)
qed

lemma ilog2_unique:
  assumes "2 powi e \<le> x" and "x < 2 powi (e + 1)"
  shows "ilog2 x = e"
proof -
  have pos: "0 < x" using assms(1) by (rule less_le_trans[rotated]) simp
  note B = ilog2_bounds[OF pos]
  have "(2::rat) powi e < 2 powi (ilog2 x + 1)" using assms(1) B(2) by simp
  then have 1: "e < ilog2 x + 1"
    using power_int_increasing[of "ilog2 x + 1" e "2::rat"] by (cases "e < ilog2 x + 1") auto
  have "(2::rat) powi (ilog2 x) < 2 powi (e + 1)" using assms(2) B(1) by simp
  then have 2: "ilog2 x < e + 1"
    using power_int_increasing[of "e + 1" "ilog2 x" "2::rat"] by (cases "ilog2 x < e + 1") auto
  from 1 2 show ?thesis by simp
qed

text \<open>
  Rounding to the nearest integer with ties to even stays within one half of its
  argument and never crosses an integer.
\<close>

lemma round_half_even_cases:
  "round_half_even x = \<lfloor>x\<rfloor> \<and> x - of_int \<lfloor>x\<rfloor> \<le> 1 / 2 \<or>
   round_half_even x = \<lfloor>x\<rfloor> + 1 \<and> 1 / 2 \<le> x - of_int \<lfloor>x\<rfloor>"
  unfolding round_half_even_def Let_def by (simp add: not_less)

lemma round_half_even_near: "\<bar>of_int (round_half_even x) - x\<bar> \<le> 1 / 2"
proof -
  have "of_int \<lfloor>x\<rfloor> \<le> x" "x < of_int \<lfloor>x\<rfloor> + 1" by linarith+
  then show ?thesis using round_half_even_cases[of x] by (auto simp: abs_le_iff)
qed

lemma round_half_even_le:
  assumes "x \<le> of_int n" shows "round_half_even x \<le> n"
proof -
  have fl: "of_int \<lfloor>x\<rfloor> \<le> x" by linarith
  from round_half_even_cases[of x] show ?thesis
  proof (elim disjE conjE)
    assume "round_half_even x = \<lfloor>x\<rfloor>"
    moreover have "\<lfloor>x\<rfloor> \<le> n" using assms by (simp add: floor_le_iff)
    ultimately show ?thesis by simp
  next
    assume r: "round_half_even x = \<lfloor>x\<rfloor> + 1" and h: "1 / 2 \<le> x - of_int \<lfloor>x\<rfloor>"
    have "(of_int \<lfloor>x\<rfloor>::rat) < of_int n" using h assms by linarith
    then have "\<lfloor>x\<rfloor> < n" by (simp only: of_int_less_iff)
    then show ?thesis using r by simp
  qed
qed

lemma round_half_even_ge:
  assumes "of_int n \<le> x" shows "n \<le> round_half_even x"
proof -
  have "n \<le> \<lfloor>x\<rfloor>" using assms by (simp add: le_floor_iff)
  then show ?thesis using round_half_even_cases[of x] by auto
qed

lemma round_half_even_int [simp]: "round_half_even (of_int n) = n"
  by (simp add: round_half_even_def)

lemma round_half_even_unique:
  assumes "\<bar>x - of_int m\<bar> < 1 / 2" shows "round_half_even x = m"
proof -
  have "\<bar>(of_int (round_half_even x) :: rat) - of_int m\<bar> < 1"
    using round_half_even_near[of x] assms by linarith
  then have "\<bar>(of_int (round_half_even x - m) :: rat)\<bar> < of_int 1" by simp
  then have "\<bar>round_half_even x - m\<bar> < 1"
    by (simp only: of_int_abs[symmetric] of_int_less_iff)
  then show ?thesis by simp
qed

text \<open>
  Rounding to binary64 keeps the sign, never crosses an integer below \<open>2\<^sup>5\<^sup>3\<close>, and in
  the normal range has a relative error of at most \<open>2\<^sup>-\<^sup>5\<^sup>3\<close>.
\<close>

lemma nearest_double_nonneg: "0 \<le> x \<Longrightarrow> 0 \<le> nearest_double x"
  unfolding nearest_double_def Let_def
  by (intro mult_nonneg_nonneg) (auto intro!: round_half_even_ge simp: zero_le_divide_iff)

lemma nearest_double_at:
  assumes "2 powi e \<le> x" and "x < 2 powi (e + 1)" and "- 1022 \<le> e"
  shows "nearest_double x = of_int (round_half_even (x * 2 powi (52 - e))) * 2 powi (e - 52)"
proof -
  have "ilog2 x = e" using assms(1,2) by (rule ilog2_unique)
  moreover have "x / 2 powi (e - 52) = x * 2 powi (52 - e)"
    using power_int_minus[of "2::rat" "e - 52"] by (simp add: divide_inverse)
  ultimately show ?thesis using assms(3) by (simp add: nearest_double_def Let_def max_def)
qed

lemma nearest_double_le_int:
  assumes "0 < x" and "x \<le> of_int n" and "n < 2 ^ 53"
  shows "nearest_double x \<le> of_int n"
proof -
  define e where "e = max (ilog2 x) (- 1022)"
  define k where "k = nat (52 - e)"
  have "2 powi (ilog2 x) \<le> x" using assms(1) by (rule ilog2_bounds)
  also have "x \<le> of_int n" by fact
  also have "(of_int n :: rat) < of_int (2 ^ 53)" using assms(3) by (simp only: of_int_less_iff)
  also have "\<dots> = 2 powi 53" by simp
  finally have "ilog2 x < 53"
    using power_int_increasing[of 53 "ilog2 x" "2::rat"] by (cases "ilog2 x < 53") auto
  then have e: "e \<le> 52" by (simp add: e_def)
  have q: "(2::rat) powi (e - 52) = 1 / 2 ^ k"
    using e by (simp add: power_int_def k_def inverse_eq_divide power_one_over)
  have "x / (1 / 2 ^ k) \<le> of_int (n * 2 ^ k)" using assms(2) by (simp add: mult_right_mono)
  then have "round_half_even (x / (1 / 2 ^ k)) \<le> n * 2 ^ k" by (rule round_half_even_le)
  then have "(of_int (round_half_even (x / (1 / 2 ^ k))) :: rat) \<le> of_int (n * 2 ^ k)"
    by (simp only: of_int_le_iff)
  then have "(of_int (round_half_even (x / (1 / 2 ^ k))) :: rat) * (1 / 2 ^ k) \<le> of_int (n * 2 ^ k) * (1 / 2 ^ k)"
    by (rule mult_right_mono) simp
  also have "\<dots> = of_int n" by simp
  finally show ?thesis by (simp add: nearest_double_def Let_def e_def[symmetric] q)
qed

lemma nearest_double_error:
  assumes "2 powi (- 1022) \<le> x"
  shows "\<bar>nearest_double x - x\<bar> \<le> x / 2 ^ 53"
proof -
  have pos: "0 < x" using assms by (rule less_le_trans[rotated]) simp
  define e where "e = ilog2 x"
  note B = ilog2_bounds[OF pos, folded e_def]
  have "(2::rat) powi (- 1022) < 2 powi (e + 1)" using assms B(2) by simp
  then have e: "- 1022 \<le> e"
    using power_int_increasing[of "e + 1" "- 1022" "2::rat"] by (cases "- 1022 \<le> e") auto
  define q :: rat where "q = 2 powi (e - 52)"
  have q: "0 < q" by (simp add: q_def)
  have nd: "nearest_double x = of_int (round_half_even (x / q)) * q"
    using e by (simp add: nearest_double_def Let_def e_def[symmetric] q_def max_def)
  have "\<bar>of_int (round_half_even (x / q)) - x / q\<bar> * q \<le> 1 / 2 * q"
    using round_half_even_near[of "x / q"] q by (intro mult_right_mono) simp_all
  moreover have "(of_int (round_half_even (x / q)) - x / q) * q = nearest_double x - x"
    using q by (simp add: nd left_diff_distrib)
  then have "\<bar>of_int (round_half_even (x / q)) - x / q\<bar> * q = \<bar>nearest_double x - x\<bar>"
    using q abs_mult[of "of_int (round_half_even (x / q)) - x / q" q] by simp
  ultimately have 1: "\<bar>nearest_double x - x\<bar> \<le> q / 2" by simp
  have "q / 2 = 2 powi e / 2 ^ 53"
    using power_int_add[of "2::rat" "e - 52" 52] by (simp add: q_def)
  also have "\<dots> \<le> x / 2 ^ 53" using B(1) by (simp add: divide_right_mono)
  finally show ?thesis using 1 by simp
qed

text \<open>
  Evaluating \<open>to_double\<close>: given the exponent \<open>e\<close> of \<open>x\<close> and an integer \<open>m\<close> within one half
  of the scaled value, the result is \<open>m \<times> 2\<^sup>e\<^sup>-\<^sup>5\<^sup>2\<close>. Integers below \<open>2\<^sup>5\<^sup>3\<close> and their
  quotients by powers of two are exact.
\<close>

lemma to_double_eqI:
  assumes "2 powi e \<le> x" and "x < 2 powi (e + 1)" and "- 1022 \<le> e" and "e \<le> 1022"
    and "\<bar>x * 2 powi (52 - e) - of_int m\<bar> < 1 / 2"
  shows "to_double x = Fin (of_int m * 2 powi (e - 52))"
proof -
  have pos: "0 < x" using assms(1) by (rule less_le_trans[rotated]) simp
  have r: "round_half_even (x * 2 powi (52 - e)) = m"
    using assms(5) by (rule round_half_even_unique)
  have nd: "nearest_double x = of_int m * 2 powi (e - 52)"
    using nearest_double_at[OF assms(1,2,3)] r by simp
  have "x * 2 powi (52 - e) < 2 powi (e + 1) * 2 powi (52 - e)"
    using assms(2) by (simp add: mult_strict_right_mono)
  also have "\<dots> = of_int (2 ^ 53)" by (simp flip: power_int_add)
  finally have "round_half_even (x * 2 powi (52 - e)) \<le> 2 ^ 53"
    by (intro round_half_even_le) simp
  then have "(of_int m :: rat) \<le> of_int (2 ^ 53)" unfolding r by (simp only: of_int_le_iff)
  then have "of_int m * 2 powi (e - 52) \<le> of_int (2 ^ 53) * (2::rat) powi (e - 52)"
    by (rule mult_right_mono) simp
  also have "\<dots> = 2 powi 53 * 2 powi (e - 52)" by simp
  also have "\<dots> = 2 powi (e + 1)"
    by (subst power_int_add[symmetric]) (simp_all add: add.commute)
  also have "\<dots> < 2 powi 1024" using assms(4) by (intro power_int_strict_increasing) simp_all
  finally have "\<not> 2 powi 1024 \<le> nearest_double x" unfolding nd by simp
  then show ?thesis using pos nd by (simp add: to_double_def Let_def)
qed

lemma to_double_minus_eqI:
  assumes "2 powi e \<le> x" and "x < 2 powi (e + 1)" and "- 1022 \<le> e" and "e \<le> 1022"
    and "\<bar>x * 2 powi (52 - e) - of_int m\<bar> < 1 / 2"
  shows "to_double (- x) = Fin (- (of_int m * 2 powi (e - 52)))"
proof -
  have pos: "0 < x" using assms(1) by (rule less_le_trans[rotated]) simp
  from to_double_eqI[OF assms] pos show ?thesis
    by (simp add: to_double_def Let_def split: if_splits)
qed

lemma to_double_minus:
  assumes "to_double x = Fin y"
  shows "to_double (- x) = Fin (- y)"
  using assms by (auto simp: to_double_def Let_def split: if_splits)

lemma to_double_of_nat:
  assumes "n < 2 ^ 53"
  shows "to_double (of_nat n) = Fin (of_nat n)"
proof (cases "n = 0")
  case True
  then show ?thesis by (simp add: to_double_def)
next
  case False
  define x :: rat where "x = of_nat n"
  define e where "e = ilog2 x"
  have pos: "0 < x" using False by (simp add: x_def)
  note B = ilog2_bounds[OF pos, folded e_def]
  have "(1::rat) \<le> x" using False by (simp add: x_def Suc_le_eq[symmetric] flip: of_nat_Suc)
  then have "(2::rat) powi 0 < 2 powi (e + 1)" using B(2) by simp
  then have e0: "0 \<le> e"
    using power_int_increasing[of "e + 1" 0 "2::rat"] by (cases "0 \<le> e") auto
  have "(of_nat n :: rat) < of_nat (2 ^ 53)" using assms by (simp only: of_nat_less_iff)
  then have "x < 2 powi 53" by (simp add: x_def)
  then have "(2::rat) powi e < 2 powi 53" using B(1) by simp
  then have e52: "e \<le> 52"
    using power_int_increasing[of 53 e "2::rat"] by (cases "e \<le> 52") auto
  have "(2::rat) powi (52 - e) = of_int (2 ^ nat (52 - e))"
    using e52 by (simp add: power_int_def)
  then have "x * 2 powi (52 - e) = of_int (int n * 2 ^ nat (52 - e))" by (simp add: x_def)
  then have "\<bar>x * 2 powi (52 - e) - of_int (int n * 2 ^ nat (52 - e))\<bar> < 1 / 2" by simp
  from to_double_eqI[OF B(1) B(2) _ _ this] e0 e52
  have "to_double x = Fin (of_int (int n * 2 ^ nat (52 - e)) * 2 powi (e - 52))" by simp
  also have "of_int (int n * 2 ^ nat (52 - e)) * 2 powi (e - 52) = x * (2 powi (52 - e) * 2 powi (e - 52))"
    using e52 by (simp add: x_def power_int_def)
  also have "\<dots> = x" by (simp flip: power_int_add)
  finally show ?thesis by (simp add: x_def)
qed

lemma to_double_scaled:
  assumes "n < 2 ^ 53" and "k \<le> 1000"
  shows "to_double (of_nat n / 2 ^ k) = Fin (of_nat n / 2 ^ k)"
proof (cases "n = 0")
  case True
  then show ?thesis by (simp add: to_double_def)
next
  case False
  define x :: rat where "x = of_nat n / 2 ^ k"
  define e where "e = ilog2 x"
  have pos: "0 < x" using False by (simp add: x_def)
  note B = ilog2_bounds[OF pos, folded e_def]
  have p2: "(2::rat) ^ k = 2 powi (int k)" by simp
  have "(1::rat) \<le> of_nat n" using False by (simp add: Suc_le_eq[symmetric] flip: of_nat_Suc)
  then have "1 / 2 ^ k \<le> x" unfolding x_def by (intro divide_right_mono) simp_all
  then have "(2::rat) powi (- int k) \<le> x" by (simp add: power_int_minus_divide)
  then have "(2::rat) powi (- int k) < 2 powi (e + 1)" using B(2) by simp
  then have elo: "- int k \<le> e"
    using power_int_increasing[of "e + 1" "- int k" "2::rat"] by (cases "- int k \<le> e") auto
  have "(of_nat n :: rat) < of_nat (2 ^ 53)" using assms(1) by (simp only: of_nat_less_iff)
  then have "x < 2 ^ 53 / 2 ^ k" unfolding x_def by (intro divide_strict_right_mono) simp_all
  also have "\<dots> = 2 powi (53 - int k)"
    using power_int_diff[of "2::rat" 53 "int k"] by simp
  finally have "(2::rat) powi e < 2 powi (53 - int k)" using B(1) by simp
  then have ehi: "e \<le> 52 - int k"
    using power_int_increasing[of "53 - int k" e "2::rat"] by (cases "e \<le> 52 - int k") auto
  define j where "j = nat (52 - int k - e)"
  have j: "int j = 52 - int k - e" using ehi by (simp add: j_def)
  have "(2::rat) powi (52 - e) = 2 powi (int j) * 2 powi (int k)"
    unfolding j using power_int_add[of "2::rat" "52 - int k - e" "int k"] by simp
  then have "x * 2 powi (52 - e) = of_int (int n * 2 ^ j)" by (simp add: x_def)
  then have near: "\<bar>x * 2 powi (52 - e) - of_int (int n * 2 ^ j)\<bar> < 1 / 2" by simp
  have "- 1022 \<le> e" "e \<le> 1022" using elo ehi assms(2) by simp_all
  from to_double_eqI[OF B(1) B(2) this near]
  have td: "to_double x = Fin (of_int (int n * 2 ^ j) * 2 powi (e - 52))" .
  have "(of_int (int n * 2 ^ j) :: rat) * 2 powi (e - 52) = of_nat n * (2 powi (int j) * 2 powi (e - 52))"
    by simp
  also have "2 powi (int j) * 2 powi (e - 52) = (2::rat) powi (- int k)"
    unfolding j using power_int_add[of "2::rat" "52 - int k - e" "e - 52"] by simp
  also have "of_nat n * (2::rat) powi (- int k) = x" by (simp add: x_def power_int_minus_divide)
  finally show ?thesis using td by (simp add: x_def)
qed


lemma to_double_small:
  assumes "2 powi (- 1022) \<le> x" and "x \<le> of_int n" and "n < 2 ^ 53"
  shows "\<exists>y. to_double x = Fin y \<and> 0 \<le> y \<and> y \<le> of_int n \<and> \<bar>y - x\<bar> \<le> x / 2 ^ 53"
proof -
  have pos: "0 < x" using assms(1) by (rule less_le_trans[rotated]) simp
  have le: "nearest_double x \<le> of_int n" using pos assms(2,3) by (rule nearest_double_le_int)
  have "(of_int n :: rat) < of_int (2 ^ 53)" using assms(3) by (simp only: of_int_less_iff)
  also have "\<dots> = 2 powi 53" by simp
  also have "\<dots> < 2 powi 1024" by (intro power_int_strict_increasing) simp_all
  finally have "\<not> 2 powi 1024 \<le> nearest_double x" using le by simp
  then have "to_double x = Fin (nearest_double x)" using pos by (simp add: to_double_def Let_def)
  then show ?thesis
    using le nearest_double_nonneg[of x] pos nearest_double_error[OF assms(1)] by simp
qed




lemma nearest_double_le_pow2:
  assumes "0 < x" and "x \<le> 2 powi j" and "- 1022 \<le> j"
  shows "nearest_double x \<le> 2 powi j"
proof -
  define e where "e = max (ilog2 x) (- 1022)"
  note B = ilog2_bounds[OF assms(1)]
  have "(2::rat) powi (ilog2 x) \<le> 2 powi j" using B(1) assms(2) by simp
  then have "ilog2 x \<le> j"
    using power_int_strict_increasing[of j "ilog2 x" "2::rat"] by (cases "ilog2 x \<le> j") auto
  then have ej: "e \<le> j" using assms(3) by (simp add: e_def)
  define k where "k = nat (j - e + 52)"
  have k: "int k = j - e + 52" using ej by (simp add: k_def)
  have "x / 2 powi (e - 52) = x * 2 powi (52 - e)"
    using power_int_minus[of "2::rat" "e - 52"] by (simp add: divide_inverse)
  moreover have "x * 2 powi (52 - e) \<le> 2 powi j * (2::rat) powi (52 - e)"
    using assms(2) by (intro mult_right_mono) simp_all
  moreover have "(2::rat) powi j * 2 powi (52 - e) = 2 powi (int k)"
    unfolding k using power_int_add[of "2::rat" j "52 - e"] by (simp add: algebra_simps)
  ultimately have "x / 2 powi (e - 52) \<le> of_int (2 ^ k)" by simp
  then have "round_half_even (x / 2 powi (e - 52)) \<le> 2 ^ k" by (rule round_half_even_le)
  then have "(of_int (round_half_even (x / 2 powi (e - 52))) :: rat) \<le> of_int (2 ^ k)"
    by (simp only: of_int_le_iff)
  then have "nearest_double x \<le> of_int (2 ^ k) * 2 powi (e - 52)"
    unfolding nearest_double_def Let_def e_def[symmetric] by (intro mult_right_mono) simp_all
  moreover have "(of_int (2 ^ k) :: rat) * 2 powi (e - 52) = 2 powi j"
  proof -
    have "(2::rat) powi (int k + (e - 52)) = 2 powi (int k) * 2 powi (e - 52)"
      by (rule power_int_add) simp
    moreover have "int k + (e - 52) = j" using k by simp
    ultimately show ?thesis by simp
  qed
  ultimately show ?thesis by simp
qed

lemma to_double_tiny:
  assumes "0 < x" and "x \<le> 2 powi (- 1022)"
  shows "\<exists>y. to_double x = Fin y \<and> 0 \<le> y \<and> y \<le> 2 powi (- 1022)"
proof -
  have le: "nearest_double x \<le> 2 powi (- 1022)"
    using assms by (rule nearest_double_le_pow2) simp
  have "(2::rat) powi (- 1022) < 2 powi 1024" by (intro power_int_strict_increasing) simp_all
  then have "\<not> 2 powi 1024 \<le> nearest_double x" using le by linarith
  moreover have "0 \<le> nearest_double x" using assms(1) by (intro nearest_double_nonneg) simp
  ultimately show ?thesis using assms(1) le by (simp add: to_double_def Let_def)
qed


lemma to_double_div_pow2:
  assumes "to_double x = Fin x" and "0 < x" and "2 powi (- 1022) \<le> x / 2 ^ k" and "0 < k"
  shows "to_double (x / 2 ^ k) = Fin (x / 2 ^ k)"
proof -
  define e where "e = ilog2 x"
  define x' where "x' = x / 2 ^ k"
  note B = ilog2_bounds[OF assms(2), folded e_def]
  have nd: "nearest_double x = x" and hi: "x < 2 powi 1024"
    using assms(1,2) by (auto simp: to_double_def Let_def split: if_splits)
  have "(2::rat) powi e < 2 powi 1024" using B(1) hi by simp
  then have e1023: "e \<le> 1023"
    using power_int_increasing[of 1024 e "2::rat"] by (cases "e \<le> 1023") auto
  have pk: "(2::rat) ^ k = 2 powi (int k)" by simp
  have lo': "2 powi (e - int k) \<le> x'"
  proof -
    have "(2::rat) powi (e - int k) = 2 powi e / 2 powi (int k)" by (rule power_int_diff) simp
    also have "\<dots> \<le> x / 2 powi (int k)" using B(1) by (intro divide_right_mono) simp_all
    finally show ?thesis unfolding x'_def pk .
  qed
  have hi': "x' < 2 powi (e - int k + 1)"
  proof -
    have "x / 2 powi (int k) < 2 powi (e + 1) / 2 powi (int k)"
      using B(2) by (intro divide_strict_right_mono) simp_all
    also have "\<dots> = 2 powi (e + 1 - int k)" by (rule power_int_diff[symmetric]) simp
    also have "e + 1 - int k = e - int k + 1" by simp
    finally show ?thesis unfolding x'_def pk .
  qed
  have "(2::rat) powi (- 1022) < 2 powi (e - int k + 1)"
    using assms(3) hi' unfolding x'_def by (rule le_less_trans)
  then have elo': "- 1022 \<le> e - int k"
    using power_int_increasing[of "e - int k + 1" "- 1022" "2::rat"]
    by (cases "- 1022 \<le> e - int k") auto
  have ehi': "e - int k \<le> 1022" using e1023 assms(4) by simp
  have elo: "- 1022 \<le> e" using elo' by simp
  define M where "M = round_half_even (x * 2 powi (52 - e))"
  have xm: "x = of_int M * 2 powi (e - 52)"
    using nearest_double_at[OF B(1) B(2) elo] nd by (simp add: M_def)
  have sc: "(2::rat) powi (e - 52) * 2 powi (52 - (e - int k)) = 2 powi (int k)"
  proof -
    have "(2::rat) powi (e - 52 + (52 - (e - int k))) = 2 powi (e - 52) * 2 powi (52 - (e - int k))"
      by (rule power_int_add) simp
    moreover have "e - 52 + (52 - (e - int k)) = int k" by simp
    ultimately show ?thesis by (simp only:)
  qed
  have "x' * 2 powi (52 - (e - int k)) = of_int M * (2 powi (e - 52) * 2 powi (52 - (e - int k))) / 2 powi (int k)"
    unfolding x'_def pk by (subst xm) (simp only: mult.assoc times_divide_eq_left)
  also have "\<dots> = of_int M" unfolding sc by simp
  finally have near: "\<bar>x' * 2 powi (52 - (e - int k)) - of_int M\<bar> < 1 / 2" by simp
  from to_double_eqI[OF lo' hi' elo' ehi' near]
  have td: "to_double x' = Fin (of_int M * 2 powi (e - int k - 52))" .
  have "(2::rat) powi (e - int k - 52) = 2 powi (e - 52) / 2 powi (int k)"
  proof -
    have "(2::rat) powi (e - 52 - int k) = 2 powi (e - 52) / 2 powi (int k)"
      by (rule power_int_diff) simp
    moreover have "e - 52 - int k = e - int k - 52" by simp
    ultimately show ?thesis by (simp only:)
  qed
  then have "of_int M * (2::rat) powi (e - int k - 52) = x'"
    unfolding x'_def pk by (subst xm) simp
  then show ?thesis using td by (simp add: x'_def)
qed

lemma to_double_div_pow2_cases:
  assumes "to_double x = Fin x" and "0 < x" and "0 < k"
  shows "\<exists>m. to_double (x / 2 ^ k) = Fin m
           \<and> (m = x / 2 ^ k \<or> (0 \<le> m \<and> m \<le> 2 powi (- 1022) \<and> x / 2 ^ k < 2 powi (- 1022)))"
proof (cases "2 powi (- 1022) \<le> x / 2 ^ k")
  case True
  from to_double_div_pow2[OF assms(1,2) True assms(3)] show ?thesis by blast
next
  case False
  have "0 < x / 2 ^ k" using assms(2) by simp
  from to_double_tiny[OF this] False show ?thesis by force
qed

lemma floor_numeral_div [simp]: "\<lfloor>(numeral a :: rat) / numeral b\<rfloor> = numeral a div numeral b"
  using floor_divide_of_int_eq[of "numeral a" "numeral b", where ?'a = rat] by simp

lemma floor_neg_numeral_div [simp]: "\<lfloor>- ((numeral a :: rat) / numeral b)\<rfloor> = - numeral a div numeral b"
  using floor_divide_of_int_eq[of "- numeral a" "numeral b", where ?'a = rat] by simp

lemma floor_one_half [simp]: "\<lfloor>(1::rat) / 2\<rfloor> = 0"
  by (rule floor_unique) simp_all

section \<open>The response body\<close>

text \<open>
  \<^verbatim>\<open>JSON.stringify\<close> yields \<^verbatim>\<open>undefined\<close> only for \<^verbatim>\<open>undefined\<close>; the temperature and
  the charging state are never \<^verbatim>\<open>undefined\<close>. The body of every response is therefore the
  following document, in which only the \<^verbatim>\<open>level\<close> property of the battery can be missing.
\<close>

lemma JSON_stringify_undefined_iff [simp]: "JSON_stringify v = JUndefined \<longleftrightarrow> v = JUndefined"
  by (cases v) (auto split: jsnum.splits)

lemma JSON_stringify_Fin [simp]: "JSON_stringify (JNum (Fin x)) = JNum (Fin x)"
  by simp

lemma read_temperature_defined [simp]: "read_temperature e ps \<noteq> JUndefined"
  by (induction ps) (auto split: option.splits simp: Let_def)

lemma getCpuTemperature_defined [simp]: "getCpuTemperature e \<noteq> JUndefined"
  by (simp add: getCpuTemperature_def)

lemma GET_body:
  "body (GET e) =
     JObj
      [(''device'', JObj
          [(''name'', JStr ''Pixel 7''),
           (''platform'', JStr (os_platform e)),
           (''arch'', JStr (os_arch e)),
           (''hostname'', JStr (os_hostname e))]),
       (''memory'', JObj
          [(''total'', JStr (formatBytes (to_double (of_nat (os_totalmem e))))),
           (''used'', JStr (formatBytes (js_sub (to_double (of_nat (os_totalmem e)))
                                               (to_double (of_nat (os_freemem e)))))),
           (''free'', JStr (formatBytes (to_double (of_nat (os_freemem e))))),
           (''usagePercent'', JSON_stringify (JNum (memUsagePercent
               (js_sub (to_double (of_nat (os_totalmem e))) (to_double (of_nat (os_freemem e))))
               (to_double (of_nat (os_totalmem e))))))]),
       (''cpu'', JObj
          [(''model'', JStr (getCpuModel e)),
           (''cores'', JNum (Fin (of_nat (getCpuCoreCount e)))),
           (''usagePercent'', JSON_stringify (JNum (cpuUsagePercent
               (to_double (fst (os_loadavg e))) (getCpuCoreCount e)))),
           (''loadAvg'', JArr
              [JStr (toFixed (to_double (fst (os_loadavg e))) 2),
               JStr (toFixed (to_double (fst (snd (os_loadavg e)))) 2),
               JStr (toFixed (to_double (snd (snd (os_loadavg e)))) 2)]),
           (''temperature'', JSON_stringify (getCpuTemperature e))]),
       (''system'', JObj
          [(''uptime'', JStr (formatUptime (to_double (process_uptime e)))),
           (''uptimeSeconds'', JSON_stringify (JNum (Math_floor (to_double (process_uptime e)))))]),
       (''battery'', JObj (filter (\<lambda>kv. snd kv \<noteq> JUndefined)
          [(''level'', JSON_stringify (level (getBatteryInfo e))),
           (''charging'', JSON_stringify (charging (getBatteryInfo e)))])),
       (''timestamp'', JStr (now_iso e))]"
  by (simp add: GET_def stats_def Let_def split_beta undefined_to_null_def del: JSON_stringify.simps(1)
      add: JSON_stringify.simps(2-))

lemma json_path_memory_usagePercent:
  "json_path (body (GET e)) [''memory'', ''usagePercent''] =
     Some (JSON_stringify (JNum (memUsagePercent
        (js_sub (to_double (of_nat (os_totalmem e))) (to_double (of_nat (os_freemem e))))
        (to_double (of_nat (os_totalmem e))))))"
  by (simp add: GET_body del: JSON_stringify.simps)


lemma json_path_memory_fields:
  "json_path (body (GET e)) [''memory'', ''total''] =
     Some (JStr (formatBytes (to_double (of_nat (os_totalmem e)))))"
  "json_path (body (GET e)) [''memory'', ''used''] =
     Some (JStr (formatBytes (js_sub (to_double (of_nat (os_totalmem e)))
                                     (to_double (of_nat (os_freemem e))))))"
  "json_path (body (GET e)) [''memory'', ''free''] =
     Some (JStr (formatBytes (to_double (of_nat (os_freemem e)))))"
  by (simp_all add: GET_body del: JSON_stringify.simps)

lemma json_path_probe_fields:
  "json_path (body (GET e)) [''cpu'', ''temperature''] = Some (JSON_stringify (getCpuTemperature e))"
  "json_path (body (GET e)) [''cpu'', ''cores''] = Some (JNum (Fin (of_nat (getCpuCoreCount e))))"
  "json_path (body (GET e)) [''cpu'', ''model''] = Some (JStr (getCpuModel e))"
  "json_path (body (GET e)) [''battery'', ''charging''] =
     (if charging (getBatteryInfo e) = JUndefined then None
      else Some (JSON_stringify (charging (getBatteryInfo e))))"
  "json_path (body (GET e)) [''battery'', ''level''] =
     (if level (getBatteryInfo e) = JUndefined then None
      else Some (JSON_stringify (level (getBatteryInfo e))))"
  by (simp_all add: GET_body del: JSON_stringify.simps)

section \<open>Candidate paths\<close>

lemma first_readable_Nil [simp]: "first_readable e [] = None"
  by (simp add: first_readable_def)

lemma first_readable_Cons:
  "first_readable e (p # ps) = (if fs_files e p \<noteq> None then Some p else first_readable e ps)"
  by (simp add: first_readable_def)

lemma first_readable_None_iff: "first_readable e ps = None \<longleftrightarrow> (\<forall>p \<in> set ps. fs_files e p = None)"
  by (induction ps) (auto simp: first_readable_Cons)

lemma read_temperature_first_readable:
  "read_temperature e ps =
     (case first_readable e ps of
        None \<Rightarrow> JNull
      | Some p \<Rightarrow> (case fs_files e p of
                    None \<Rightarrow> JNull
                  | Some content \<Rightarrow> JNum (spec_celsius (parseInt (trim content)))))"
  by (induction ps) (auto simp: first_readable_Cons spec_celsius_def Let_def split: option.splits)

lemma read_level_first_readable:
  "level (read_level e ps vars) =
     (case first_readable e ps of
        None \<Rightarrow> level vars
      | Some q \<Rightarrow> (case fs_files e q of
                    None \<Rightarrow> level vars
                  | Some content \<Rightarrow> JNum (parseInt (trim content))))"
  "charging (read_level e ps vars) = charging vars"
  by (induction ps) (auto simp: first_readable_Cons split: option.splits)

lemma read_charging_first_readable:
  "charging (read_charging e ps vars) =
     (case first_readable e ps of
        None \<Rightarrow> charging vars
      | Some q \<Rightarrow> (case fs_files e q of
                    None \<Rightarrow> charging vars
                  | Some content \<Rightarrow>
                      JBool (toLowerCase (trim content) = ''charging''
                             \<or> toLowerCase (trim content) = ''full'')))"
  "level (read_charging e ps vars) = level vars"
  by (induction ps) (auto simp: first_readable_Cons Let_def split: option.splits)

lemma parseInt_examples:
  "parseInt (trim millidegrees_45000) = Fin 45000"
  "parseInt (trim ''45'') = Fin 45"
  "parseInt (trim capacity_87) = Fin 87"
  "parseInt (trim ''unknown'') = NaN"
proof -
  have d: "to_double 45000 = Fin 45000" "to_double 45 = Fin 45" "to_double 87 = Fin 87"
    using to_double_of_nat[of 45000] to_double_of_nat[of 45] to_double_of_nat[of 87] by simp_all
  show "parseInt (trim millidegrees_45000) = Fin 45000"
    by (simp add: millidegrees_45000_def parseInt_def trim_def Let_def is_js_whitespace_def
        digit_of_def digits_value_def d)
  show "parseInt (trim ''45'') = Fin 45"
    by (simp add: parseInt_def trim_def Let_def is_js_whitespace_def digit_of_def digits_value_def d)
  show "parseInt (trim capacity_87) = Fin 87"
    by (simp add: capacity_87_def parseInt_def trim_def Let_def is_js_whitespace_def
        digit_of_def digits_value_def d)
  show "parseInt (trim ''unknown'') = NaN"
    by (simp add: parseInt_def trim_def Let_def is_js_whitespace_def digit_of_def digits_value_def)
qed

lemma status_Charging_lower: "toLowerCase (trim status_Charging) = ''charging''"
  by (simp add: status_Charging_def trim_def toLowerCase_def lower_char_def Let_def
      is_js_whitespace_def char_of_def bit_Suc_0_iff)

lemma spec_celsius_examples: "spec_celsius (Fin 45000) = Fin 45" "spec_celsius (Fin 45) = Fin 45"
proof -
  have "to_double 45 = Fin 45" using to_double_of_nat[of 45] by simp
  then show "spec_celsius (Fin 45000) = Fin 45" by (simp add: spec_celsius_def)
  show "spec_celsius (Fin 45) = Fin 45" by (simp add: spec_celsius_def)
qed

section \<open>The battery probe\<close>

lemma try_helper_fails:
  "helper_fails e \<Longrightarrow> try_helper e vars = Inl vars"
  by (auto simp: helper_fails_def try_helper_def split: option.splits)

lemma getBatteryInfo_when_helper_fails:
  assumes "helper_fails e"
  shows "getBatteryInfo e =
     read_charging e statusPaths (read_level e batteryPaths \<lparr>level = JNull, charging = JNull\<rparr>)"
  using try_helper_fails[OF assms] by (simp add: getBatteryInfo_def)

lemma helper_unavailable_fails:
  assumes "helper e = None
       \<or> (\<exists>p. helper e = Some p
             \<and> (run_ms p = None \<or> (\<exists>t. run_ms p = Some t \<and> helper_timeout_ms < t)
                \<or> stdout_json p = None))"
  shows "helper_fails e"
  using assms
  by (auto simp: helper_fails_def execSync_helper_def split: option.splits)

lemma helper_output_beyond_maxBuffer:
  assumes "helper e = Some p" and "maxBuffer < output_bytes p"
  shows "helper_fails e"
  using assms by (simp add: helper_fails_def execSync_helper_def)

lemma try_helper_fs_files [simp]: "try_helper (e\<lparr>fs_files := files\<rparr>) vars = try_helper e vars"
  by (simp add: try_helper_def execSync_helper_def)

lemma read_level_charging_defined:
  "charging vars \<noteq> JUndefined \<Longrightarrow> charging (read_charging e ps vars) \<noteq> JUndefined"
  by (induction ps) (auto simp: Let_def split: option.splits)

lemma charging_defined [simp]: "charging (getBatteryInfo e) \<noteq> JUndefined"
proof (cases "try_helper e \<lparr>level = JNull, charging = JNull\<rparr>")
  case (Inl vars)
  then have "charging vars = JNull \<or> charging vars = JNull"
    by (auto simp: try_helper_def split: option.splits if_splits)
  then have "charging (read_level e batteryPaths vars) \<noteq> JUndefined"
    by (simp add: read_level_first_readable)
  then show ?thesis using Inl by (simp add: getBatteryInfo_def read_level_charging_defined)
next
  case (Inr r)
  then have "\<exists>b. charging r = JBool b"
    by (auto simp: try_helper_def split: option.splits if_splits)
  then show ?thesis using Inr by (auto simp: getBatteryInfo_def)
qed

section \<open>Digits\<close>

lemma digit_char_values:
  "digit_char 0 = CHR ''0''" "digit_char 1 = CHR ''1''" "digit_char 2 = CHR ''2''"
  "digit_char 3 = CHR ''3''" "digit_char 4 = CHR ''4''" "digit_char 5 = CHR ''5''"
  "digit_char 6 = CHR ''6''" "digit_char 7 = CHR ''7''" "digit_char 8 = CHR ''8''"
  "digit_char 9 = CHR ''9''" "digit_char (Suc 0) = CHR ''1''"
  by (simp_all add: digit_char_def char_of_def bit_Suc_0_iff)

lemma decimal_digits_nonempty [simp]: "decimal_digits n \<noteq> []"
  by (subst decimal_digits.simps) simp

lemma decimal_digits_length [simp]: "Suc 0 \<le> length (decimal_digits n)"
  using decimal_digits_nonempty[of n] by (simp add: Suc_le_eq del: decimal_digits_nonempty)

lemma decimal_digits_step:
  "10 \<le> n \<Longrightarrow> decimal_digits n = decimal_digits (n div 10) @ [digit_char (n mod 10)]"
  by (subst decimal_digits.simps) simp

lemma decimal_digits_two_last:
  assumes "100 \<le> n"
  shows "decimal_digits n = decimal_digits (n div 100) @ [digit_char (n div 10 mod 10), digit_char (n mod 10)]"
proof -
  have "10 \<le> n div 10" using assms by simp
  then have "decimal_digits (n div 10) = decimal_digits (n div 10 div 10) @ [digit_char (n div 10 mod 10)]"
    by (rule decimal_digits_step)
  moreover have "n div 10 div 10 = n div 100" by (simp add: div_mult2_eq[symmetric])
  ultimately show ?thesis using decimal_digits_step[of n] assms by simp
qed

lemma fixed_digits_two:
  assumes "1 \<le> x"
  shows "fixed_digits 2 x =
     (let n = nat \<lfloor>x * 100 + 1 / 2\<rfloor>
      in decimal_digits (n div 100) @ ''.'' @ [digit_char (n div 10 mod 10), digit_char (n mod 10)])"
proof -
  define n where "n = nat \<lfloor>x * 100 + 1 / 2\<rfloor>"
  define h where "h = decimal_digits (n div 100)"
  define t where "t = [digit_char (n div 10 mod 10), digit_char (n mod 10)]"
  have "(100::int) \<le> \<lfloor>x * 100 + 1 / 2\<rfloor>" using assms by (simp add: le_floor_iff)
  then have n: "100 \<le> n" unfolding n_def by linarith
  have m: "decimal_digits n = h @ t"
    unfolding h_def t_def by (rule decimal_digits_two_last[OF n])
  have hl: "Suc 0 \<le> length h" by (simp add: h_def)
  have len: "length (h @ t) - 2 = length h" by (simp add: t_def)
  have "fixed_digits 2 x = take (length (h @ t) - 2) (h @ t) @ ''.'' @ drop (length (h @ t) - 2) (h @ t)"
    using hl by (simp add: fixed_digits_def Let_def n_def[symmetric] m t_def)
  also have "\<dots> = h @ ''.'' @ t" unfolding len by simp
  finally show ?thesis by (simp add: Let_def n_def h_def t_def)
qed

lemma is_digit_digit_char: "d < 10 \<Longrightarrow> is_digit (digit_char d)"
proof -
  assume "d < 10"
  then have "d = 0 \<or> d = 1 \<or> d = 2 \<or> d = 3 \<or> d = 4 \<or> d = 5 \<or> d = 6 \<or> d = 7
    \<or> d = 8 \<or> d = 9" by presburger
  then show ?thesis by (elim disjE) (simp_all add: is_digit_def digit_char_values)
qed

lemma decimal_digits_are_digits: "list_all is_digit (decimal_digits n)"
proof (induction n rule: decimal_digits.induct)
  case (1 n)
  show ?case
  proof (cases "n < 10")
    case True
    then show ?thesis by (subst decimal_digits.simps) (simp add: is_digit_digit_char)
  next
    case False
    then show ?thesis using 1 by (subst decimal_digits.simps) (simp add: is_digit_digit_char)
  qed
qed

lemma two_decimals_GB_shape:
  "two_decimals_GB (decimal_digits a @ ''.'' @ [digit_char (b mod 10), digit_char (c mod 10)] @ '' GB'')"
  using decimal_digits_are_digits[of a]
  by (simp add: two_decimals_GB_def is_digit_digit_char list_all_iff)

lemma formatBytes_gibibytes:
  assumes "is_double x" and "2 ^ 30 \<le> x" and "x < 2 ^ 30 * 10 ^ 21"
  shows "\<exists>n. formatBytes (Fin x) =
            decimal_digits (n div 100) @ ''.'' @ [digit_char (n div 10 mod 10), digit_char (n mod 10)] @ '' GB''
          \<and> \<bar>(of_nat n :: rat) / 100 - x / 2 ^ 30\<bar> \<le> 1 / 200"
proof -
  define g :: rat where "g = x / 2 ^ 30"
  have g1: "1 \<le> g" using assms(2) by (simp add: g_def)
  have pos: "0 < x" using assms(2) by (rule less_le_trans[rotated]) simp
  have "(2::rat) powi (- 1022) \<le> 2 powi 0" by (intro power_int_increasing) simp_all
  then have "2 powi (- 1022) \<le> x / 2 ^ 30" using g1 unfolding g_def by simp
  from to_double_div_pow2[OF assms(1)[unfolded is_double_def] pos this]
  have gb: "js_div (Fin x) (Fin (1024 * 1024 * 1024)) = Fin g" by (simp add: g_def)
  have "g < 10 ^ 21" using assms(3) by (simp add: g_def)
  then have small: "\<not> 10 ^ 21 \<le> \<bar>g\<bar>" using g1 by simp
  define n where "n = nat \<lfloor>g * 100 + 1 / 2\<rfloor>"
  have fb: "formatBytes (Fin x) =
      decimal_digits (n div 100) @ ''.'' @ [digit_char (n div 10 mod 10), digit_char (n mod 10)] @ '' GB''"
    unfolding formatBytes_def gb using g1 small
    by (simp add: Let_def fixed_digits_two n_def)
  have "0 \<le> \<lfloor>g * 100 + 1 / 2\<rfloor>" using g1 by simp
  then have "(of_nat n :: rat) = of_int \<lfloor>g * 100 + 1 / 2\<rfloor>" by (simp add: n_def)
  then have "\<bar>(of_nat n :: rat) - g * 100\<bar> \<le> 1 / 2" by linarith
  then have "\<bar>(of_nat n :: rat) / 100 - x / 2 ^ 30\<bar> \<le> 1 / 200"
    unfolding g_def[symmetric] by (simp add: abs_le_iff field_simps)
  then show ?thesis using fb by blast
qed

lemma tiny_bounds:
  "(2::rat) powi (- 1022) \<le> 1 / 4" "(2::rat) powi (- 1022) \<le> 1 / 2 ^ 20"
proof -
  have "(2::rat) powi (- 1022) \<le> 2 powi (- 20)" by (intro power_int_increasing) simp_all
  then show "(2::rat) powi (- 1022) \<le> 1 / 2 ^ 20" by (simp add: power_int_minus_divide)
  then show "(2::rat) powi (- 1022) \<le> 1 / 4" by simp
qed

lemma formatBytes_mebibytes:
  assumes "is_double x" and "0 \<le> x" and "x < 2 ^ 30"
  shows "\<exists>n. formatBytes (Fin x) = decimal_digits n @ '' MB''
          \<and> \<bar>(of_nat n :: rat) - x / 2 ^ 20\<bar> \<le> 1 / 2"
proof (cases "x = 0")
  case True
  then have "formatBytes (Fin x) = decimal_digits 0 @ '' MB''"
    by (simp add: formatBytes_def to_double_def fixed_digits_def)
  then show ?thesis using True by (intro exI[of _ 0]) simp
next
  case False
  then have pos: "0 < x" using assms(2) by simp
  define t :: rat where "t = 2 powi (- 1022)"
  note d = assms(1)[unfolded is_double_def]
  from to_double_div_pow2_cases[OF d pos, of 30] obtain g where
    g: "to_double (x / 2 ^ 30) = Fin g" "g = x / 2 ^ 30 \<or> (0 \<le> g \<and> g \<le> t \<and> x / 2 ^ 30 < t)"
    unfolding t_def by auto
  from to_double_div_pow2_cases[OF d pos, of 20] obtain m where
    m: "to_double (x / 2 ^ 20) = Fin m" "m = x / 2 ^ 20 \<or> (0 \<le> m \<and> m \<le> t \<and> x / 2 ^ 20 < t)"
    unfolding t_def by auto
  have t4: "t \<le> 1 / 4" unfolding t_def by (rule tiny_bounds)
  have "x / 2 ^ 30 < 1" using assms(3) by simp
  then have g1: "\<not> 1 \<le> g" using g(2) t4 by auto
  have m0: "0 \<le> m" using m(2) pos by auto
  have "x / 2 ^ 20 < 2 ^ 10" using assms(3) by simp
  then have "m < 2 ^ 10" using m(2) t4 by auto
  then have small: "\<not> 10 ^ 21 \<le> \<bar>m\<bar>" using m0 by simp
  define n where "n = nat \<lfloor>m + 1 / 2\<rfloor>"
  have gb: "js_div (Fin x) (Fin (1024 * 1024 * 1024)) = Fin g" using g(1) by simp
  have mb: "js_div (Fin x) (Fin (1024 * 1024)) = Fin m" using m(1) by simp
  have fb: "formatBytes (Fin x) = decimal_digits n @ '' MB''"
    unfolding formatBytes_def gb mb using g1 small m0
    by (simp add: Let_def fixed_digits_def n_def)
  have "0 \<le> \<lfloor>m + 1 / 2\<rfloor>" using m0 by simp
  then have nn: "(of_nat n :: rat) = of_int \<lfloor>m + 1 / 2\<rfloor>" by (simp add: n_def)
  then have nm: "\<bar>(of_nat n :: rat) - m\<bar> \<le> 1 / 2" by linarith
  have "\<bar>(of_nat n :: rat) - x / 2 ^ 20\<bar> \<le> 1 / 2"
  proof (cases "m = x / 2 ^ 20")
    case True
    show ?thesis using nm unfolding True .
  next
    case False
    then have s: "0 \<le> m" "m \<le> t" "x / 2 ^ 20 < t" using m(2) by auto
    then have "\<lfloor>m + 1 / 2\<rfloor> = 0" using t4 by (intro floor_unique) simp_all
    then have "(of_nat n :: rat) = 0" using nn by simp
    moreover have "0 \<le> x / 2 ^ 20" using pos by simp
    ultimately show ?thesis using s(3) t4 by simp
  qed
  then show ?thesis using fb by blast
qed

lemma formatBytes_below_zero:
  assumes "is_double x" and "x < 0" and "- (2 ^ 20 * 10 ^ 21) < x"
  shows "\<exists>n s. formatBytes (Fin x) = s @ decimal_digits n @ '' MB''
          \<and> (s = ''-'' \<or> s = [] \<and> n = 0) \<and> (x \<le> - 1 \<longrightarrow> s = ''-'')
          \<and> \<bar>(of_nat n :: rat) - \<bar>x\<bar> / 2 ^ 20\<bar> \<le> 1 / 2"
proof -
  define a where "a = - x"
  have pos: "0 < a" using assms(2) by (simp add: a_def)
  have da: "to_double a = Fin a"
    using to_double_minus[OF assms(1)[unfolded is_double_def]] by (simp add: a_def)
  define t :: rat where "t = 2 powi (- 1022)"
  from to_double_div_pow2_cases[OF da pos, of 30] obtain g where
    g: "to_double (a / 2 ^ 30) = Fin g" "g = a / 2 ^ 30 \<or> (0 \<le> g \<and> g \<le> t \<and> a / 2 ^ 30 < t)"
    unfolding t_def by auto
  from to_double_div_pow2_cases[OF da pos, of 20] obtain m where
    m: "to_double (a / 2 ^ 20) = Fin m" "m = a / 2 ^ 20 \<or> (0 \<le> m \<and> m \<le> t \<and> a / 2 ^ 20 < t)"
    unfolding t_def by auto
  have t4: "t \<le> 1 / 4" and t20: "t \<le> 1 / 2 ^ 20" unfolding t_def by (rule tiny_bounds)+
  have g0: "0 \<le> g" using g(2) pos by auto
  have m0: "0 \<le> m" using m(2) pos by auto
  have "x / 2 ^ 30 = - (a / 2 ^ 30)" "x / 2 ^ 20 = - (a / 2 ^ 20)" by (simp_all add: a_def)
  then have gb: "js_div (Fin x) (Fin (1024 * 1024 * 1024)) = Fin (- g)"
    and mb: "js_div (Fin x) (Fin (1024 * 1024)) = Fin (- m)"
    using to_double_minus[OF g(1)] to_double_minus[OF m(1)] by simp_all
  have "a < 2 ^ 20 * 10 ^ 21" using assms(3) by (simp add: a_def)
  then have "a / 2 ^ 20 < 10 ^ 21" by (simp add: field_simps)
  then have "m < 10 ^ 21" using m(2) t4 by auto
  then have small: "\<not> 10 ^ 21 \<le> \<bar>- m\<bar>" using m0 by simp
  define n where "n = nat \<lfloor>m + 1 / 2\<rfloor>"
  define s where "s = (if - m < 0 then ''-'' else [])"
  have fb: "formatBytes (Fin x) = s @ decimal_digits n @ '' MB''"
    unfolding formatBytes_def gb mb using g0 small m0
    by (simp add: Let_def fixed_digits_def n_def s_def)
  have "0 \<le> \<lfloor>m + 1 / 2\<rfloor>" using m0 by simp
  then have nn: "(of_nat n :: rat) = of_int \<lfloor>m + 1 / 2\<rfloor>" by (simp add: n_def)
  then have nm: "\<bar>(of_nat n :: rat) - m\<bar> \<le> 1 / 2" by linarith
  have ax: "\<bar>x\<bar> = a" using assms(2) by (simp add: a_def)
  have acc: "\<bar>(of_nat n :: rat) - \<bar>x\<bar> / 2 ^ 20\<bar> \<le> 1 / 2"
  proof (cases "m = a / 2 ^ 20")
    case True
    show ?thesis using nm unfolding ax True .
  next
    case False
    then have f: "0 \<le> m" "m \<le> t" "a / 2 ^ 20 < t" using m(2) by auto
    then have "\<lfloor>m + 1 / 2\<rfloor> = 0" using t4 by (intro floor_unique) simp_all
    then have "(of_nat n :: rat) = 0" using nn by simp
    moreover have "0 \<le> a / 2 ^ 20" using pos by simp
    ultimately show ?thesis using f(3) t4 ax by simp
  qed
  have sg: "s = ''-'' \<or> s = [] \<and> n = 0"
  proof (cases "0 < m")
    case True
    then show ?thesis by (simp add: s_def)
  next
    case False
    then have "m = 0" using m0 by simp
    then show ?thesis by (simp add: s_def n_def)
  qed
  have "s = ''-''" if "x \<le> - 1"
  proof -
    have "1 \<le> a" using that by (simp add: a_def)
    then have "1 / 2 ^ 20 \<le> a / 2 ^ 20" by (intro divide_right_mono) simp_all
    then have "\<not> a / 2 ^ 20 < t" using t20 by linarith
    then have "m = a / 2 ^ 20" using m(2) by auto
    then have "0 < m" using pos by simp
    then show ?thesis by (simp add: s_def)
  qed
  then show ?thesis using fb sg acc by blast
qed

lemma to_double_powers_of_ten:
  "to_double 1000000000000000000000 = Fin 1000000000000000000000"
  "to_double 2000000000000000000000 = Fin 2000000000000000000000"
  "to_double 10000000000000000000000 = Fin 10000000000000000000000"
  "to_double 1073741824000000000000000000000 = Fin 1073741824000000000000000000000"
  using to_double_eqI[of 69 1000000000000000000000 7629394531250000]
    to_double_eqI[of 70 2000000000000000000000 7629394531250000]
    to_double_eqI[of 73 10000000000000000000000 4768371582031250]
    to_double_eqI[of 99 1073741824000000000000000000000 7629394531250000]
  by simp_all

lemma exponent_notation_1e21: "exponent_notation 1000000000000000000000 = ''1e+21''"
proof -
  have l: "length (decimal_digits 1000000000000000000000) = 22"
    by (simp add: decimal_digits.simps)
  have u: "[Suc 0..<18] = Suc 0 # [2..<18]" by (simp add: upt_conv_Cons)
  have c: "exponent_candidates 1000000000000000000000 (Suc 0) = [(1, 22)]"
    by (simp add: exponent_candidates_def l Let_def to_double_powers_of_ten)
  show ?thesis
    by (simp add: exponent_notation_def u c decimal_digits.simps digit_char_values)
qed

lemma formatBytes_1e21: "formatBytes (Fin (2 ^ 30 * 10 ^ 21)) = ''1e+21 GB''"
  by (simp add: formatBytes_def to_double_powers_of_ten nat_toString_def exponent_notation_1e21)


lemma formatBytes_GiB_examples:
  "formatBytes (Fin 8589934592) = ''8.00 GB''"
  "formatBytes (Fin 5368709120) = ''5.00 GB''"
  "formatBytes (Fin 3221225472) = ''3.00 GB''"
proof -
  have d: "to_double 8 = Fin 8" "to_double 5 = Fin 5" "to_double 3 = Fin 3"
    using to_double_of_nat[of 8] to_double_of_nat[of 5] to_double_of_nat[of 3] by simp_all
  show "formatBytes (Fin 8589934592) = ''8.00 GB''"
    by (simp add: formatBytes_def d fixed_digits_def Let_def decimal_digits.simps digit_char_values)
  show "formatBytes (Fin 5368709120) = ''5.00 GB''"
    by (simp add: formatBytes_def d fixed_digits_def Let_def decimal_digits.simps digit_char_values)
  show "formatBytes (Fin 3221225472) = ''3.00 GB''"
    by (simp add: formatBytes_def d fixed_digits_def Let_def decimal_digits.simps digit_char_values)
qed

section \<open>Percentages\<close>







lemma memUsagePercent_range:
  assumes "0 < t" and "t < 2 ^ 53" and "u \<le> t"
  shows "\<exists>n. memUsagePercent (Fin (of_nat u)) (Fin (of_nat t)) = Fin (of_int n)
             \<and> 0 \<le> n \<and> n \<le> 100
             \<and> \<bar>(of_int n :: rat) - 100 * of_nat u / of_nat t\<bar> \<le> 1 / 2 + 1 / 2 ^ 45"
proof (cases "u = 0")
  case True
  then have "memUsagePercent (Fin (of_nat u)) (Fin (of_nat t)) = Fin (of_int 0)"
    using assms(1) by (simp add: memUsagePercent_def to_double_def)
  then show ?thesis using True by (intro exI[of _ 0]) simp
next
  case False
  define x :: rat where "x = of_nat u / of_nat t"
  have t: "(0::rat) < of_nat t" using assms(1) by simp
  have x1: "x \<le> 1" using assms(3) t by (simp add: x_def)
  have "(1::rat) \<le> of_nat u" using False by (simp add: Suc_le_eq[symmetric] flip: of_nat_Suc)
  moreover have "(of_nat t :: rat) < of_nat (2 ^ 53)" using assms(2) by (simp only: of_nat_less_iff)
  ultimately have "1 / 2 ^ 53 \<le> x" using t unfolding x_def
    by (simp add: field_simps) 
  then have xlo: "2 powi (- 53) \<le> x" by (simp add: power_int_minus_divide)
  have "(2::rat) powi (- 1022) \<le> 2 powi (- 53)" by (intro power_int_increasing) simp_all
  then have xsub: "2 powi (- 1022) \<le> x" using xlo by simp
  from to_double_small[OF xsub, of 1] x1
  obtain y where y: "to_double x = Fin y" "0 \<le> y" "y \<le> 1" "\<bar>y - x\<bar> \<le> x / 2 ^ 53"
    by auto
  have ylo: "2 powi (- 54) \<le> y"
  proof -
    have "0 \<le> x" using xlo by (rule order_trans[rotated]) simp
    then have "x / 2 ^ 53 \<le> x / 2" by (intro divide_left_mono) simp_all
    then have "x / 2 \<le> x - x / 2 ^ 53" by simp
    also have "\<dots> \<le> y" using y(4) by linarith
    finally have "x / 2 \<le> y" .
    moreover have "(2::rat) powi (- 54) = 2 powi (- 53) / 2" by (simp add: power_int_minus_divide)
    ultimately show ?thesis using xlo by simp
  qed
  have "(2::rat) powi (- 1022) \<le> 2 powi (- 54)" by (intro power_int_increasing) simp_all
  then have ysub: "2 powi (- 1022) \<le> y * 100" using ylo y(2) by simp
  from to_double_small[OF ysub, of 100] y(3)
  obtain z where z: "to_double (y * 100) = Fin z" "0 \<le> z" "z \<le> 100"
    "\<bar>z - y * 100\<bar> \<le> y * 100 / 2 ^ 53"
    by auto
  define n where "n = \<lfloor>z + 1 / 2\<rfloor>"
  have mp: "memUsagePercent (Fin (of_nat u)) (Fin (of_nat t)) = Fin (of_int n)"
    using t y(1) z(1) by (simp add: memUsagePercent_def x_def n_def)
  have n0: "0 \<le> n" using z(2) by (simp add: n_def)
  have n100: "n \<le> 100" using z(3) by (simp add: n_def floor_le_iff)
  have nz: "\<bar>of_int n - z\<bar> \<le> 1 / 2" unfolding n_def by linarith
  have "of_int n - 100 * x = (of_int n - z) + (z - y * 100) + 100 * (y - x)" by simp
  also have "\<bar>\<dots>\<bar> \<le> \<bar>of_int n - z\<bar> + \<bar>z - y * 100\<bar> + \<bar>100 * (y - x)\<bar>"
    by (intro order_trans[OF abs_triangle_ineq] add_mono order_refl)
  also have "\<bar>100 * (y - x)\<bar> = 100 * \<bar>y - x\<bar>" by (simp only: abs_mult abs_numeral)
  finally have "\<bar>of_int n - 100 * x\<bar> \<le> \<bar>of_int n - z\<bar> + \<bar>z - y * 100\<bar> + 100 * \<bar>y - x\<bar>" .
  also have "\<dots> \<le> 1 / 2 + y * 100 / 2 ^ 53 + 100 * (x / 2 ^ 53)"
    using nz z(4) y(4) by (intro add_mono mult_left_mono) simp_all
  also have "\<dots> \<le> 1 / 2 + 1 * 100 / 2 ^ 53 + 100 * (1 / 2 ^ 53)"
    using y(3) x1 by (intro add_mono order_refl divide_right_mono mult_left_mono mult_right_mono) simp_all
  also have "\<dots> \<le> 1 / 2 + 1 / 2 ^ 45" by simp
  finally have "\<bar>(of_int n :: rat) - 100 * of_nat u / of_nat t\<bar> \<le> 1 / 2 + 1 / 2 ^ 45"
    by (simp add: x_def)
  then show ?thesis using mp n0 n100 by blast
qed

section \<open>The claims\<close>

subsection \<open>C1: status, top-level keys and the shape of the body\<close>

text \<open>
  Claim C1. Every request is answered with status 200 and a body that has the six
  top-level keys \<^verbatim>\<open>device\<close>, \<^verbatim>\<open>memory\<close>, \<^verbatim>\<open>cpu\<close>, \<^verbatim>\<open>system\<close>, \<^verbatim>\<open>battery\<close>,
  \<^verbatim>\<open>timestamp\<close> in every environment. The set of keys below the top level is not fixed,
  though: when the helper prints the document \<^verbatim>\<open>{}\<close>, the probe returns the level
  \<^verbatim>\<open>undefined\<close>, against its declared result type \<^verbatim>\<open>number | null\<close>, and the battery
  object of the body has no \<^verbatim>\<open>level\<close> key, whereas on a host without helper and files
  it has both keys, with \<^verbatim>\<open>null\<close> values.
\<close>

theorem GET_battery_level_key_omitted:
  "status (GET e) = 200
   \<and> json_keys (body (GET e)) = [''device'', ''memory'', ''cpu'', ''system'', ''battery'', ''timestamp'']
   \<and> json_field (body (GET (bare_env\<lparr>helper := Some (helper_printing (JObj []))\<rparr>))) ''battery''
       = Some (JObj [(''charging'', JBool False)])
   \<and> json_field (body (GET bare_env)) ''battery''
       = Some (JObj [(''level'', JNull), (''charging'', JNull)])"
proof -
  let ?e = "bare_env\<lparr>helper := Some (helper_printing (JObj []))\<rparr>"
  have g: "getBatteryInfo ?e = \<lparr>level = JUndefined, charging = JBool False\<rparr>"
    by (simp add: getBatteryInfo_def try_helper_def execSync_helper_def helper_printing_def
        helper_timeout_ms_def maxBuffer_def is_nullish_def bare_env_def)
  have "helper_fails bare_env" by (simp add: helper_fails_def execSync_helper_def bare_env_def)
  then have b: "getBatteryInfo bare_env = \<lparr>level = JNull, charging = JNull\<rparr>"
    by (simp add: getBatteryInfo_when_helper_fails batteryPaths_def statusPaths_def bare_env_def)
  show ?thesis by (simp add: GET_body g b) (simp add: GET_def)
qed

subsection \<open>C2: failures stay inside a probe\<close>

text \<open>
  Claim C2, as stated, fails: a pseudo-file that can be read but holds no number makes
  \<^verbatim>\<open>parseInt\<close> return \<^verbatim>\<open>NaN\<close> without throwing, so the temperature probe returns
  \<^verbatim>\<open>NaN\<close> (and does not try the second path, which holds a reading here), and the
  battery probe returns the level \<^verbatim>\<open>NaN\<close>; neither is \<^verbatim>\<open>null\<close>.
\<close>

theorem unparsable_reading_counterexample:
  "getCpuTemperature (bare_env\<lparr>fs_files :=
       [''/sys/class/thermal/thermal_zone0/temp'' \<mapsto> ''unknown'',
        ''/sys/devices/virtual/thermal/thermal_zone0/temp'' \<mapsto> millidegrees_45000]\<rparr>) = JNum NaN
   \<and> level (getBatteryInfo (bare_env\<lparr>fs_files :=
       [''/sys/class/power_supply/battery/capacity'' \<mapsto> ''unknown'']\<rparr>)) = JNum NaN
   \<and> JNum NaN \<noteq> JNull"
proof -
  let ?t = "bare_env\<lparr>fs_files :=
       [''/sys/class/thermal/thermal_zone0/temp'' \<mapsto> ''unknown'',
        ''/sys/devices/virtual/thermal/thermal_zone0/temp'' \<mapsto> millidegrees_45000]\<rparr>"
  let ?b = "bare_env\<lparr>fs_files :=
       [''/sys/class/power_supply/battery/capacity'' \<mapsto> ''unknown'']\<rparr>"
  have "getCpuTemperature ?t = JNum NaN"
    by (simp add: getCpuTemperature_def thermalPaths_def parseInt_examples)
  moreover have "helper_fails ?b"
    by (simp add: helper_fails_def execSync_helper_def bare_env_def)
  then have "level (getBatteryInfo ?b) = JNum NaN"
    by (simp add: getBatteryInfo_when_helper_fails read_charging_first_readable
        batteryPaths_def parseInt_examples)
  ultimately show ?thesis by simp
qed

text \<open>
  Claim C2, amended. A failure to read a file, a failure of the helper (not installed,
  killed at the timeout or for the size of its output, exit status not zero) and a
  failure to parse or use its output are caught inside the probe: the temperature is
  \<^verbatim>\<open>null\<close> when no thermal path can be read; when the helper fails the battery probe reads the files, and the level, or the
  charging state, is \<^verbatim>\<open>null\<close> when none of its paths can be read; the core count falls
  back to \<^verbatim>\<open>os.cpus()\<close> or 8. A file that can be read but holds no number is no failure
  of this kind: the probe returns \<^verbatim>\<open>NaN\<close> for it, and the body carries \<^verbatim>\<open>null\<close>. No
  probe has an error result, and in every environment the response has status 200 and
  carries the value of each probe: temperature, core count, model, charging state, and
  the level whenever it is not \<^verbatim>\<open>undefined\<close>.
\<close>

theorem probe_failures_are_local:
  "(first_readable e thermalPaths = None \<longrightarrow> getCpuTemperature e = JNull)
   \<and> (helper_fails e \<and> first_readable e batteryPaths = None \<longrightarrow> level (getBatteryInfo e) = JNull)
   \<and> (helper_fails e \<and> first_readable e statusPaths = None \<longrightarrow> charging (getBatteryInfo e) = JNull)
   \<and> (helper_fails e \<longrightarrow> getBatteryInfo e =
         read_charging e statusPaths (read_level e batteryPaths \<lparr>level = JNull, charging = JNull\<rparr>))
   \<and> (fs_files e ''/proc/cpuinfo'' = None \<longrightarrow>
         getCpuCoreCount e = (if os_cpus e = [] then 8 else length (os_cpus e)))
   \<and> (\<forall>p content. first_readable e thermalPaths = Some p \<and> fs_files e p = Some content
          \<and> parseInt (trim content) = NaN \<longrightarrow>
         getCpuTemperature e = JNum NaN
         \<and> json_path (body (GET e)) [''cpu'', ''temperature''] = Some JNull)
   \<and> (\<forall>p content. helper_fails e \<and> first_readable e batteryPaths = Some p
          \<and> fs_files e p = Some content \<and> parseInt (trim content) = NaN \<longrightarrow>
         level (getBatteryInfo e) = JNum NaN
         \<and> json_path (body (GET e)) [''battery'', ''level''] = Some JNull)
   \<and> status (GET e) = 200
   \<and> json_path (body (GET e)) [''cpu'', ''temperature''] = Some (JSON_stringify (getCpuTemperature e))
   \<and> json_path (body (GET e)) [''cpu'', ''cores''] = Some (JNum (Fin (of_nat (getCpuCoreCount e))))
   \<and> json_path (body (GET e)) [''cpu'', ''model''] = Some (JStr (getCpuModel e))
   \<and> json_path (body (GET e)) [''battery'', ''charging''] = Some (JSON_stringify (charging (getBatteryInfo e)))
   \<and> (level (getBatteryInfo e) \<noteq> JUndefined \<longrightarrow>
         json_path (body (GET e)) [''battery'', ''level''] = Some (JSON_stringify (level (getBatteryInfo e))))"
proof (intro conjI impI allI)
  assume "first_readable e thermalPaths = None"
  then show "getCpuTemperature e = JNull"
    by (simp add: getCpuTemperature_def read_temperature_first_readable)
next
  assume "helper_fails e \<and> first_readable e batteryPaths = None"
  then show "level (getBatteryInfo e) = JNull"
    by (simp add: getBatteryInfo_when_helper_fails read_charging_first_readable
        read_level_first_readable)
next
  assume "helper_fails e \<and> first_readable e statusPaths = None"
  then show "charging (getBatteryInfo e) = JNull"
    by (simp add: getBatteryInfo_when_helper_fails read_charging_first_readable
        read_level_first_readable)
next
  assume "helper_fails e"
  then show "getBatteryInfo e =
         read_charging e statusPaths (read_level e batteryPaths \<lparr>level = JNull, charging = JNull\<rparr>)"
    by (rule getBatteryInfo_when_helper_fails)
next
  assume "fs_files e ''/proc/cpuinfo'' = None"
  then show "getCpuCoreCount e = (if os_cpus e = [] then 8 else length (os_cpus e))"
    by (simp add: getCpuCoreCount_def)
next
  fix p content
  assume a: "first_readable e thermalPaths = Some p \<and> fs_files e p = Some content
          \<and> parseInt (trim content) = NaN"
  then show t: "getCpuTemperature e = JNum NaN"
    by (simp add: getCpuTemperature_def read_temperature_first_readable spec_celsius_def)
  show "json_path (body (GET e)) [''cpu'', ''temperature''] = Some JNull"
    unfolding json_path_probe_fields t by simp
next
  fix p content
  assume a: "helper_fails e \<and> first_readable e batteryPaths = Some p
          \<and> fs_files e p = Some content \<and> parseInt (trim content) = NaN"
  then show l: "level (getBatteryInfo e) = JNum NaN"
    by (simp add: getBatteryInfo_when_helper_fails read_charging_first_readable
        read_level_first_readable)
  show "json_path (body (GET e)) [''battery'', ''level''] = Some JNull"
    unfolding json_path_probe_fields l by simp
next
  show "status (GET e) = 200" by (simp add: GET_def)
next
  assume "level (getBatteryInfo e) \<noteq> JUndefined"
  then show "json_path (body (GET e)) [''battery'', ''level''] = Some (JSON_stringify (level (getBatteryInfo e)))"
    by (simp only: json_path_probe_fields(5) if_False)
qed (simp_all only: json_path_probe_fields charging_defined if_False)

text \<open>
  Two instances. When only the status file of the battery exists, temperature and level
  are \<^verbatim>\<open>null\<close>, the charging state is still reported, and the core count is the default.
  When the first thermal file and the first capacity file hold the text \<^verbatim>\<open>unknown\<close>, the
  body carries \<^verbatim>\<open>null\<close> for the temperature, the level and the charging state.
\<close>

theorem probe_failures_are_local_witness:
  "json_path (body (GET (bare_env\<lparr>fs_files :=
        [''/sys/class/power_supply/battery/status'' \<mapsto> status_Charging]\<rparr>))) [''cpu'', ''temperature'']
     = Some JNull
   \<and> json_path (body (GET (bare_env\<lparr>fs_files :=
        [''/sys/class/power_supply/battery/status'' \<mapsto> status_Charging]\<rparr>))) [''battery'', ''level'']
     = Some JNull
   \<and> json_path (body (GET (bare_env\<lparr>fs_files :=
        [''/sys/class/power_supply/battery/status'' \<mapsto> status_Charging]\<rparr>))) [''battery'', ''charging'']
     = Some (JBool True)
   \<and> json_path (body (GET (bare_env\<lparr>fs_files :=
        [''/sys/class/power_supply/battery/status'' \<mapsto> status_Charging]\<rparr>))) [''cpu'', ''cores'']
     = Some (JNum (Fin 8))
   \<and> json_path (body (GET (bare_env\<lparr>fs_files :=
        [''/sys/class/thermal/thermal_zone0/temp'' \<mapsto> ''unknown'',
         ''/sys/class/power_supply/battery/capacity'' \<mapsto> ''unknown'']\<rparr>))) [''cpu'', ''temperature'']
     = Some JNull
   \<and> json_path (body (GET (bare_env\<lparr>fs_files :=
        [''/sys/class/thermal/thermal_zone0/temp'' \<mapsto> ''unknown'',
         ''/sys/class/power_supply/battery/capacity'' \<mapsto> ''unknown'']\<rparr>))) [''battery'', ''level'']
     = Some JNull
   \<and> json_path (body (GET (bare_env\<lparr>fs_files :=
        [''/sys/class/thermal/thermal_zone0/temp'' \<mapsto> ''unknown'',
         ''/sys/class/power_supply/battery/capacity'' \<mapsto> ''unknown'']\<rparr>))) [''battery'', ''charging'']
     = Some JNull"
proof -
  let ?e = "bare_env\<lparr>fs_files := [''/sys/class/power_supply/battery/status'' \<mapsto> status_Charging]\<rparr>"
  have h: "first_readable ?e thermalPaths = None" "helper_fails ?e"
    "first_readable ?e batteryPaths = None" "fs_files ?e ''/proc/cpuinfo'' = None"
    "os_cpus ?e = []"
    by (simp_all add: first_readable_def thermalPaths_def batteryPaths_def helper_fails_def
        execSync_helper_def bare_env_def)
  have c: "charging (read_charging ?e statusPaths (read_level ?e batteryPaths \<lparr>level = JNull, charging = JNull\<rparr>))
      = JBool True"
    by (simp add: read_charging_first_readable first_readable_def statusPaths_def
        status_Charging_lower)
  note t = probe_failures_are_local[of ?e]
  from t h have 1: "getCpuTemperature ?e = JNull" by blast
  from t h have 2: "level (getBatteryInfo ?e) = JNull" by blast
  from t h have "getBatteryInfo ?e =
      read_charging ?e statusPaths (read_level ?e batteryPaths \<lparr>level = JNull, charging = JNull\<rparr>)"
    by blast
  then have 3: "charging (getBatteryInfo ?e) = JBool True" using c by simp
  from t h have 4: "getCpuCoreCount ?e = 8" by simp
  from t have "json_path (body (GET ?e)) [''cpu'', ''temperature''] = Some (JSON_stringify (getCpuTemperature ?e))"
    "json_path (body (GET ?e)) [''cpu'', ''cores''] = Some (JNum (Fin (of_nat (getCpuCoreCount ?e))))"
    "json_path (body (GET ?e)) [''battery'', ''charging''] = Some (JSON_stringify (charging (getBatteryInfo ?e)))"
    "level (getBatteryInfo ?e) \<noteq> JUndefined \<longrightarrow>
         json_path (body (GET ?e)) [''battery'', ''level''] = Some (JSON_stringify (level (getBatteryInfo ?e)))"
    by blast+
  then have first: "json_path (body (GET ?e)) [''cpu'', ''temperature''] = Some JNull"
    "json_path (body (GET ?e)) [''battery'', ''level''] = Some JNull"
    "json_path (body (GET ?e)) [''battery'', ''charging''] = Some (JBool True)"
    "json_path (body (GET ?e)) [''cpu'', ''cores''] = Some (JNum (Fin 8))"
    unfolding 1 2 3 4 by simp_all
  let ?n = "bare_env\<lparr>fs_files :=
        [''/sys/class/thermal/thermal_zone0/temp'' \<mapsto> ''unknown'',
         ''/sys/class/power_supply/battery/capacity'' \<mapsto> ''unknown'']\<rparr>"
  have k: "first_readable ?n thermalPaths = Some ''/sys/class/thermal/thermal_zone0/temp''"
    "fs_files ?n ''/sys/class/thermal/thermal_zone0/temp'' = Some ''unknown''"
    "helper_fails ?n"
    "first_readable ?n batteryPaths = Some ''/sys/class/power_supply/battery/capacity''"
    "fs_files ?n ''/sys/class/power_supply/battery/capacity'' = Some ''unknown''"
    "first_readable ?n statusPaths = None"
    "parseInt (trim ''unknown'') = NaN"
    by (simp_all add: first_readable_def thermalPaths_def batteryPaths_def statusPaths_def
        helper_fails_def execSync_helper_def bare_env_def parseInt_examples)
  note u = probe_failures_are_local[of ?n]
  from u k have 5: "json_path (body (GET ?n)) [''cpu'', ''temperature''] = Some JNull" by blast
  from u k have 6: "json_path (body (GET ?n)) [''battery'', ''level''] = Some JNull" by blast
  from u k have 7: "charging (getBatteryInfo ?n) = JNull" by blast
  from u have "json_path (body (GET ?n)) [''battery'', ''charging'']
      = Some (JSON_stringify (charging (getBatteryInfo ?n)))"
    by blast
  then have 8: "json_path (body (GET ?n)) [''battery'', ''charging''] = Some JNull"
    unfolding 7 by simp
  show ?thesis using first 5 6 8 by simp
qed

subsection \<open>C3: the battery probe falls back to the files\<close>

text \<open>
  Claim C3. If the helper is not installed, does not finish within the timeout of
  3000 ms (or never), or prints what \<^verbatim>\<open>JSON.parse\<close> rejects, the battery probe reads
  the level from the first readable capacity path and the charging state from the first
  readable status path; a value whose paths are all unreadable is \<^verbatim>\<open>null\<close>, and when
  every path is unreadable the probe returns \<^verbatim>\<open>{ level: null, charging: null }\<close>. The
  probe always returns: it has no error result.
\<close>

theorem getBatteryInfo_fallback:
  assumes "helper e = None
       \<or> (\<exists>p. helper e = Some p
             \<and> (run_ms p = None \<or> (\<exists>t. run_ms p = Some t \<and> helper_timeout_ms < t)
                \<or> stdout_json p = None))"
  shows "level (getBatteryInfo e) =
           (case first_readable e batteryPaths of
              None \<Rightarrow> JNull
            | Some q \<Rightarrow> (case fs_files e q of
                          None \<Rightarrow> JNull
                        | Some content \<Rightarrow> JNum (parseInt (trim content))))
       \<and> charging (getBatteryInfo e) =
           (case first_readable e statusPaths of
              None \<Rightarrow> JNull
            | Some q \<Rightarrow> (case fs_files e q of
                          None \<Rightarrow> JNull
                        | Some content \<Rightarrow>
                            JBool (toLowerCase (trim content) = ''charging''
                                   \<or> toLowerCase (trim content) = ''full'')))
       \<and> ((\<forall>q \<in> set (batteryPaths @ statusPaths). fs_files e q = None) \<longrightarrow>
             getBatteryInfo e = \<lparr>level = JNull, charging = JNull\<rparr>)
       \<and> helper_timeout_ms = 3000"
proof -
  have f: "helper_fails e" using assms by (rule helper_unavailable_fails)
  note g = getBatteryInfo_when_helper_fails[OF f]
  have l: "level (getBatteryInfo e) =
           (case first_readable e batteryPaths of
              None \<Rightarrow> JNull
            | Some q \<Rightarrow> (case fs_files e q of
                          None \<Rightarrow> JNull
                        | Some content \<Rightarrow> JNum (parseInt (trim content))))"
    by (simp add: g read_charging_first_readable read_level_first_readable split: option.splits)
  have c: "charging (getBatteryInfo e) =
           (case first_readable e statusPaths of
              None \<Rightarrow> JNull
            | Some q \<Rightarrow> (case fs_files e q of
                          None \<Rightarrow> JNull
                        | Some content \<Rightarrow>
                            JBool (toLowerCase (trim content) = ''charging''
                                   \<or> toLowerCase (trim content) = ''full'')))"
    by (simp add: g read_charging_first_readable read_level_first_readable split: option.splits)
  have n: "getBatteryInfo e = \<lparr>level = JNull, charging = JNull\<rparr>"
    if "\<forall>q \<in> set (batteryPaths @ statusPaths). fs_files e q = None"
  proof -
    from that have "first_readable e batteryPaths = None" "first_readable e statusPaths = None"
      by (simp_all add: first_readable_None_iff)
    then have "level (getBatteryInfo e) = JNull" "charging (getBatteryInfo e) = JNull"
      using l c by simp_all
    then show ?thesis by (cases "getBatteryInfo e") simp
  qed
  show ?thesis using l c n by (simp add: helper_timeout_ms_def)
qed

text \<open>
  Instances: no helper and no file; a helper that would answer after 5000 ms, with
  files present; a helper whose output does not parse, with one file present.
\<close>

theorem getBatteryInfo_fallback_witness:
  "getBatteryInfo bare_env = \<lparr>level = JNull, charging = JNull\<rparr>
   \<and> getBatteryInfo (bare_env\<lparr>helper := Some ((helper_printing (JObj [(''percentage'', JNum (Fin 50))]))\<lparr>run_ms := Some 5000\<rparr>),
        fs_files := [''/sys/class/power_supply/BAT0/capacity'' \<mapsto> capacity_87,
                     ''/sys/class/power_supply/battery/status'' \<mapsto> status_Charging]\<rparr>)
      = \<lparr>level = JNum (Fin 87), charging = JBool True\<rparr>
   \<and> getBatteryInfo (bare_env\<lparr>helper := Some \<lparr>run_ms = Some 120, exit_status = 0, stdout_json = None, output_bytes = 0\<rparr>,
        fs_files := [''/sys/class/power_supply/BAT0/capacity'' \<mapsto> capacity_87]\<rparr>)
      = \<lparr>level = JNum (Fin 87), charging = JNull\<rparr>"
proof -
  let ?slow = "bare_env\<lparr>helper := Some ((helper_printing (JObj [(''percentage'', JNum (Fin 50))]))\<lparr>run_ms := Some 5000\<rparr>),
        fs_files := [''/sys/class/power_supply/BAT0/capacity'' \<mapsto> capacity_87,
                     ''/sys/class/power_supply/battery/status'' \<mapsto> status_Charging]\<rparr>"
  let ?bad = "bare_env\<lparr>helper := Some \<lparr>run_ms = Some 120, exit_status = 0, stdout_json = None, output_bytes = 0\<rparr>,
        fs_files := [''/sys/class/power_supply/BAT0/capacity'' \<mapsto> capacity_87]\<rparr>"
  have h0: "helper bare_env = None
       \<or> (\<exists>p. helper bare_env = Some p
             \<and> (run_ms p = None \<or> (\<exists>t. run_ms p = Some t \<and> helper_timeout_ms < t)
                \<or> stdout_json p = None))"
    by (simp add: bare_env_def)
  have "\<forall>q \<in> set (batteryPaths @ statusPaths). fs_files bare_env q = None"
    by (simp add: bare_env_def)
  with getBatteryInfo_fallback[OF h0]
  have a: "getBatteryInfo bare_env = \<lparr>level = JNull, charging = JNull\<rparr>" by blast
  have h1: "helper ?slow = None
       \<or> (\<exists>p. helper ?slow = Some p
             \<and> (run_ms p = None \<or> (\<exists>t. run_ms p = Some t \<and> helper_timeout_ms < t)
                \<or> stdout_json p = None))"
    by (simp add: helper_printing_def helper_timeout_ms_def)
  have f1: "first_readable ?slow batteryPaths = Some ''/sys/class/power_supply/BAT0/capacity''"
    "first_readable ?slow statusPaths = Some ''/sys/class/power_supply/battery/status''"
    by (simp_all add: first_readable_def batteryPaths_def statusPaths_def bare_env_def)
  from getBatteryInfo_fallback[OF h1]
  have "level (getBatteryInfo ?slow) = JNum (Fin 87)" "charging (getBatteryInfo ?slow) = JBool True"
    by (simp_all add: f1 parseInt_examples status_Charging_lower)
  then have b: "getBatteryInfo ?slow = \<lparr>level = JNum (Fin 87), charging = JBool True\<rparr>"
    by (cases "getBatteryInfo ?slow") simp
  have h2: "helper ?bad = None
       \<or> (\<exists>p. helper ?bad = Some p
             \<and> (run_ms p = None \<or> (\<exists>t. run_ms p = Some t \<and> helper_timeout_ms < t)
                \<or> stdout_json p = None))"
    by simp
  have f2: "first_readable ?bad batteryPaths = Some ''/sys/class/power_supply/BAT0/capacity''"
    "first_readable ?bad statusPaths = None"
    by (simp_all add: first_readable_def batteryPaths_def statusPaths_def bare_env_def)
  from getBatteryInfo_fallback[OF h2]
  have "level (getBatteryInfo ?bad) = JNum (Fin 87)" "charging (getBatteryInfo ?bad) = JNull"
    by (simp_all add: f2 parseInt_examples)
  then have c: "getBatteryInfo ?bad = \<lparr>level = JNum (Fin 87), charging = JNull\<rparr>"
    by (cases "getBatteryInfo ?bad") simp
  show ?thesis using a b c by simp
qed

subsection \<open>C4: the memory fields\<close>

text \<open>
  Claim C4, as stated, fails: the fields \<^verbatim>\<open>total\<close>, \<^verbatim>\<open>used\<close> and \<^verbatim>\<open>free\<close> of the
  memory object are not numbers but strings, made by \<^verbatim>\<open>formatBytes\<close>. With 8 GiB in
  total and 3 GiB free they are \<^verbatim>\<open>"8.00 GB"\<close>, \<^verbatim>\<open>"5.00 GB"\<close> and \<^verbatim>\<open>"3.00 GB"\<close>.
\<close>

theorem memory_fields_counterexample:
  "json_path (body (GET bare_env)) [''memory'', ''total''] = Some (JStr ''8.00 GB'')
   \<and> \<not> is_byte_count (JStr ''8.00 GB'')
   \<and> json_path (body (GET bare_env)) [''memory'', ''used''] = Some (JStr ''5.00 GB'')
   \<and> \<not> is_byte_count (JStr ''5.00 GB'')
   \<and> json_path (body (GET bare_env)) [''memory'', ''free''] = Some (JStr ''3.00 GB'')
   \<and> \<not> is_byte_count (JStr ''3.00 GB'')"
proof -
  have d: "to_double 8589934592 = Fin 8589934592" "to_double 3221225472 = Fin 3221225472"
    "to_double 5368709120 = Fin 5368709120"
    using to_double_of_nat[of 8589934592] to_double_of_nat[of 3221225472]
      to_double_of_nat[of 5368709120] by simp_all
  show ?thesis unfolding json_path_memory_fields
    by (simp add: bare_env_def d formatBytes_GiB_examples)
qed

text \<open>
  Claim C4, amended. In every snapshot the memory object's \<^verbatim>\<open>total\<close>, \<^verbatim>\<open>used\<close> and
  \<^verbatim>\<open>free\<close> fields are the strings that \<^verbatim>\<open>formatBytes\<close> makes of the total, of the total
  minus the free, and of the free byte count; for counts below \<open>2\<^sup>5\<^sup>3\<close> with free at most
  total, the subtraction is the exact one.
\<close>

theorem memory_fields_are_formatted_strings:
  "json_path (body (GET e)) [''memory'', ''total''] =
     Some (JStr (formatBytes (to_double (of_nat (os_totalmem e)))))
   \<and> json_path (body (GET e)) [''memory'', ''used''] =
     Some (JStr (formatBytes (js_sub (to_double (of_nat (os_totalmem e)))
                                     (to_double (of_nat (os_freemem e))))))
   \<and> json_path (body (GET e)) [''memory'', ''free''] =
     Some (JStr (formatBytes (to_double (of_nat (os_freemem e)))))
   \<and> (os_freemem e \<le> os_totalmem e \<and> os_totalmem e < 2 ^ 53 \<longrightarrow>
        json_path (body (GET e)) [''memory'', ''total''] =
          Some (JStr (formatBytes (Fin (of_nat (os_totalmem e)))))
        \<and> json_path (body (GET e)) [''memory'', ''used''] =
          Some (JStr (formatBytes (Fin (of_nat (os_totalmem e - os_freemem e)))))
        \<and> json_path (body (GET e)) [''memory'', ''free''] =
          Some (JStr (formatBytes (Fin (of_nat (os_freemem e))))))"
proof (intro conjI impI)
  assume a: "os_freemem e \<le> os_totalmem e \<and> os_totalmem e < 2 ^ 53"
  let ?t = "os_totalmem e" and ?f = "os_freemem e"
  have t: "?t < 2 ^ 53" and le: "?f \<le> ?t" using a by simp_all
  have f: "?f < 2 ^ 53" using t le by simp
  have u: "?t - ?f < 2 ^ 53" using t by simp
  have T: "to_double (of_nat ?t) = Fin (of_nat ?t)" using t by (rule to_double_of_nat)
  have F: "to_double (of_nat ?f) = Fin (of_nat ?f)" using f by (rule to_double_of_nat)
  have "js_sub (Fin (of_nat ?t)) (Fin (of_nat ?f)) = to_double (of_nat (?t - ?f))"
    using le by (simp add: of_nat_diff)
  also have "\<dots> = Fin (of_nat (?t - ?f))" using u by (rule to_double_of_nat)
  finally have U: "js_sub (Fin (of_nat ?t)) (Fin (of_nat ?f)) = Fin (of_nat (?t - ?f))" .
  show "json_path (body (GET e)) [''memory'', ''total''] = Some (JStr (formatBytes (Fin (of_nat ?t))))"
    unfolding json_path_memory_fields T ..
  show "json_path (body (GET e)) [''memory'', ''used''] = Some (JStr (formatBytes (Fin (of_nat (?t - ?f)))))"
    unfolding json_path_memory_fields T F U ..
  show "json_path (body (GET e)) [''memory'', ''free''] = Some (JStr (formatBytes (Fin (of_nat ?f))))"
    unfolding json_path_memory_fields F ..
qed (rule json_path_memory_fields)+

theorem memory_fields_are_formatted_strings_witness:
  "json_path (body (GET bare_env)) [''memory'', ''total''] = Some (JStr ''8.00 GB'')
   \<and> json_path (body (GET bare_env)) [''memory'', ''used''] = Some (JStr ''5.00 GB'')
   \<and> json_path (body (GET bare_env)) [''memory'', ''free''] = Some (JStr ''3.00 GB'')"
proof -
  have h: "os_freemem bare_env \<le> os_totalmem bare_env \<and> os_totalmem bare_env < 2 ^ 53"
    by (simp add: bare_env_def)
  have v: "os_totalmem bare_env = 8589934592" "os_freemem bare_env = 3221225472"
    by (simp_all add: bare_env_def)
  from memory_fields_are_formatted_strings[of bare_env] h
  have "json_path (body (GET bare_env)) [''memory'', ''total''] =
          Some (JStr (formatBytes (Fin (of_nat (os_totalmem bare_env)))))"
       "json_path (body (GET bare_env)) [''memory'', ''used''] =
          Some (JStr (formatBytes (Fin (of_nat (os_totalmem bare_env - os_freemem bare_env)))))"
       "json_path (body (GET bare_env)) [''memory'', ''free''] =
          Some (JStr (formatBytes (Fin (of_nat (os_freemem bare_env)))))"
    by blast+
  then show ?thesis unfolding v by (simp add: formatBytes_GiB_examples)
qed

subsection \<open>C5: the memory percentage\<close>

text \<open>
  Claim C5, as stated, fails. With 200 MiB in total and 171 MiB free, 29 of 200 parts
  are used. The handler divides first: \<open>29 / 200\<close> is not a binary64 number, and the
  nearest one times 100 is \<open>14.499999999999998\<close>, which \<^verbatim>\<open>Math.round\<close> takes to 14. The
  formula of the claim multiplies first: \<open>100 \<times> 29 / 200\<close> is 14.5 exactly, in binary64 as
  in the rationals, and rounds to 15. And nothing bounds the free count by the total:
  with 1 GiB in total and 2 GiB free the percentage is \<open>-100\<close>.
\<close>

theorem memory_usagePercent_counterexample:
  "json_path (body (GET (bare_env\<lparr>os_totalmem := 209715200, os_freemem := 179306496\<rparr>)))
      [''memory'', ''usagePercent''] = Some (JNum (Fin 14))
   \<and> spec_memory_usedPercent 209715200 179306496 = Fin 15
   \<and> json_path (body (GET (bare_env\<lparr>os_totalmem := 1073741824, os_freemem := 2147483648\<rparr>)))
      [''memory'', ''usagePercent''] = Some (JNum (Fin (- 100)))"
proof -
  have d: "to_double 209715200 = Fin 209715200" "to_double 179306496 = Fin 179306496"
    "to_double 30408704 = Fin 30408704" "to_double 3040870400 = Fin 3040870400"
    "to_double 1073741824 = Fin 1073741824" "to_double 2147483648 = Fin 2147483648"
    using to_double_of_nat[of 209715200] to_double_of_nat[of 179306496]
      to_double_of_nat[of 30408704] to_double_of_nat[of 3040870400]
      to_double_of_nat[of 1073741824] to_double_of_nat[of 2147483648]
    by simp_all
  have 1: "js_div (Fin 30408704) (Fin 209715200) = Fin (5224175567749775 / 36028797018963968)"
    using to_double_eqI[of "- 3" "29 / 200" 5224175567749775] by simp
  have 2: "js_mul (Fin (5224175567749775 / 36028797018963968)) (Fin 100)
             = Fin (8162774324609023 / 562949953421312)"
    using to_double_eqI[of 3 "5224175567749775 / 36028797018963968 * 100" 8162774324609023]
    by simp
  have code: "memUsagePercent (Fin 30408704) (Fin 209715200) = Fin 14"
    unfolding memUsagePercent_def 1 2 by simp
  have 3: "js_div (Fin 3040870400) (Fin 209715200) = Fin (29 / 2)"
    using to_double_eqI[of 3 "29 / 2" 8162774324609024] by simp
  have spec: "spec_memory_usedPercent 209715200 179306496 = Fin 15"
    by (simp add: spec_memory_usedPercent_def d 3 del: js_div.simps)
  have 4: "to_double (- 1073741824) = Fin (- 1073741824)" "to_double (- 1) = Fin (- 1)"
    "to_double (- 100) = Fin (- 100)"
    using to_double_minus[OF d(5)] to_double_minus[OF to_double_of_nat[of 1]]
      to_double_minus[OF to_double_of_nat[of 100]]
    by simp_all
  have neg: "memUsagePercent (Fin (- 1073741824)) (Fin 1073741824) = Fin (- 100)"
    by (simp add: memUsagePercent_def 4)
  show ?thesis unfolding json_path_memory_usagePercent
    by (simp add: bare_env_def d code spec neg 4 del: js_div.simps js_mul.simps)
qed

text \<open>
  Claim C5, amended. For a total above 0 and below \<open>2\<^sup>5\<^sup>3\<close> and a free count of at most
  the total, the \<^verbatim>\<open>usagePercent\<close> of the memory object is
  \<^verbatim>\<open>Math.round((total - free) / total * 100)\<close> as binary64 arithmetic evaluates it, an
  integer between 0 and 100, and it differs from the exact percentage
  \<open>100 \<times> (total - free) / total\<close> by at most \<open>1/2 + 2\<^sup>-\<^sup>4\<^sup>5\<close>: it is the nearest integer
  except within \<open>2\<^sup>-\<^sup>4\<^sup>5\<close> of a tie.
\<close>

theorem memory_usagePercent_in_range:
  assumes "0 < os_totalmem e" and "os_totalmem e < 2 ^ 53" and "os_freemem e \<le> os_totalmem e"
  shows "\<exists>n. json_path (body (GET e)) [''memory'', ''usagePercent''] = Some (JNum (Fin (of_int n)))
           \<and> Fin (of_int n) = memUsagePercent (Fin (of_nat (os_totalmem e - os_freemem e)))
                                               (Fin (of_nat (os_totalmem e)))
           \<and> 0 \<le> n \<and> n \<le> 100
           \<and> \<bar>(of_int n :: rat) - 100 * of_nat (os_totalmem e - os_freemem e) / of_nat (os_totalmem e)\<bar>
               \<le> 1 / 2 + 1 / 2 ^ 45"
proof -
  let ?t = "os_totalmem e" and ?f = "os_freemem e"
  have f: "?f < 2 ^ 53" using assms(2,3) by simp
  have u: "?t - ?f < 2 ^ 53" using assms(2) by simp
  have T: "to_double (of_nat ?t) = Fin (of_nat ?t)" using assms(2) by (rule to_double_of_nat)
  have F: "to_double (of_nat ?f) = Fin (of_nat ?f)" using f by (rule to_double_of_nat)
  have "js_sub (Fin (of_nat ?t)) (Fin (of_nat ?f)) = to_double (of_nat (?t - ?f))"
    using assms(3) by (simp add: of_nat_diff)
  also have "\<dots> = Fin (of_nat (?t - ?f))" using u by (rule to_double_of_nat)
  finally have U: "js_sub (Fin (of_nat ?t)) (Fin (of_nat ?f)) = Fin (of_nat (?t - ?f))" .
  from memUsagePercent_range[OF assms(1,2), of "?t - ?f"]
  obtain n where n: "memUsagePercent (Fin (of_nat (?t - ?f))) (Fin (of_nat ?t)) = Fin (of_int n)"
    "0 \<le> n" "n \<le> 100"
    "\<bar>(of_int n :: rat) - 100 * of_nat (?t - ?f) / of_nat ?t\<bar> \<le> 1 / 2 + 1 / 2 ^ 45"
    by auto
  have "json_path (body (GET e)) [''memory'', ''usagePercent''] = Some (JNum (Fin (of_int n)))"
    unfolding json_path_memory_usagePercent T F U n(1) by simp
  then show ?thesis using n by auto
qed

text \<open>
  An instance: 8 GiB in total, 3 GiB free, 62.5 percent used, reported as 63.
\<close>

theorem memory_usagePercent_in_range_witness:
  "json_path (body (GET bare_env)) [''memory'', ''usagePercent''] = Some (JNum (Fin 63))"
proof -
  have h: "0 < os_totalmem bare_env" "os_totalmem bare_env < 2 ^ 53"
    "os_freemem bare_env \<le> os_totalmem bare_env"
    by (simp_all add: bare_env_def)
  have 1: "js_div (Fin 5368709120) (Fin 8589934592) = Fin (5 / 8)"
    using to_double_eqI[of "- 1" "5 / 8" 5629499534213120] by simp
  have 2: "js_mul (Fin (5 / 8)) (Fin 100) = Fin (125 / 2)"
    using to_double_eqI[of 5 "125 / 2" 8796093022208000] by simp
  have m: "memUsagePercent (Fin 5368709120) (Fin 8589934592) = Fin 63"
    unfolding memUsagePercent_def 1 2 by simp
  from memory_usagePercent_in_range[OF h]
  obtain n where n: "json_path (body (GET bare_env)) [''memory'', ''usagePercent'']
        = Some (JNum (Fin (of_int n)))"
    and "Fin (of_int n) = memUsagePercent (Fin (of_nat (os_totalmem bare_env - os_freemem bare_env)))
                                               (Fin (of_nat (os_totalmem bare_env)))"
    by blast
  then have "Fin (of_int n) = Fin 63" using m by (simp add: bare_env_def)
  then show ?thesis using n by simp
qed

subsection \<open>C6: the temperature probe\<close>

text \<open>
  Claim C6. The temperature probe returns \<^verbatim>\<open>null\<close> exactly when no candidate path can
  be read; otherwise it parses the content of the first readable path and returns the
  parsed number divided by 1000 if it exceeds 1000, and unchanged if not: a raw 45000
  gives 45, a raw 45 gives 45.
\<close>

theorem getCpuTemperature_first_readable:
  "(first_readable e thermalPaths = None \<longrightarrow> getCpuTemperature e = JNull)
   \<and> (\<forall>p content. first_readable e thermalPaths = Some p \<and> fs_files e p = Some content \<longrightarrow>
        getCpuTemperature e =
          JNum (if js_gt (parseInt (trim content)) (Fin 1000)
                then js_div (parseInt (trim content)) (Fin 1000)
                else parseInt (trim content)))
   \<and> (\<forall>p content. first_readable e thermalPaths = Some p \<and> fs_files e p = Some content
          \<and> parseInt (trim content) = Fin 45000 \<longrightarrow> getCpuTemperature e = JNum (Fin 45))
   \<and> (\<forall>p content. first_readable e thermalPaths = Some p \<and> fs_files e p = Some content
          \<and> parseInt (trim content) = Fin 45 \<longrightarrow> getCpuTemperature e = JNum (Fin 45))
   \<and> (first_readable e thermalPaths = None \<longleftrightarrow> (\<forall>p \<in> set thermalPaths. fs_files e p = None))"
proof (intro conjI allI impI)
  assume "first_readable e thermalPaths = None"
  then show "getCpuTemperature e = JNull"
    by (simp add: getCpuTemperature_def read_temperature_first_readable)
next
  fix p content
  assume "first_readable e thermalPaths = Some p \<and> fs_files e p = Some content"
  then show "getCpuTemperature e =
          JNum (if js_gt (parseInt (trim content)) (Fin 1000)
                then js_div (parseInt (trim content)) (Fin 1000)
                else parseInt (trim content))"
    by (simp add: getCpuTemperature_def read_temperature_first_readable spec_celsius_def)
next
  fix p content
  assume "first_readable e thermalPaths = Some p \<and> fs_files e p = Some content
          \<and> parseInt (trim content) = Fin 45000"
  then show "getCpuTemperature e = JNum (Fin 45)"
    by (simp add: getCpuTemperature_def read_temperature_first_readable spec_celsius_examples)
next
  fix p content
  assume "first_readable e thermalPaths = Some p \<and> fs_files e p = Some content
          \<and> parseInt (trim content) = Fin 45"
  then show "getCpuTemperature e = JNum (Fin 45)"
    by (simp add: getCpuTemperature_def read_temperature_first_readable spec_celsius_examples)
next
  show "first_readable e thermalPaths = None \<longleftrightarrow> (\<forall>p \<in> set thermalPaths. fs_files e p = None)"
    by (rule first_readable_None_iff)
qed

text \<open>
  Instances: only the second path readable, holding 45000; both readable, the first
  holding 45; none readable.
\<close>

theorem getCpuTemperature_first_readable_witness:
  "getCpuTemperature (bare_env\<lparr>fs_files :=
      [''/sys/devices/virtual/thermal/thermal_zone0/temp'' \<mapsto> millidegrees_45000]\<rparr>) = JNum (Fin 45)
   \<and> getCpuTemperature (bare_env\<lparr>fs_files :=
      [''/sys/class/thermal/thermal_zone0/temp'' \<mapsto> ''45'',
       ''/sys/devices/virtual/thermal/thermal_zone0/temp'' \<mapsto> millidegrees_45000]\<rparr>) = JNum (Fin 45)
   \<and> getCpuTemperature bare_env = JNull"
proof -
  let ?a = "bare_env\<lparr>fs_files :=
      [''/sys/devices/virtual/thermal/thermal_zone0/temp'' \<mapsto> millidegrees_45000]\<rparr>"
  let ?b = "bare_env\<lparr>fs_files :=
      [''/sys/class/thermal/thermal_zone0/temp'' \<mapsto> ''45'',
       ''/sys/devices/virtual/thermal/thermal_zone0/temp'' \<mapsto> millidegrees_45000]\<rparr>"
  have a: "first_readable ?a thermalPaths = Some ''/sys/devices/virtual/thermal/thermal_zone0/temp''
      \<and> fs_files ?a ''/sys/devices/virtual/thermal/thermal_zone0/temp'' = Some millidegrees_45000
      \<and> parseInt (trim millidegrees_45000) = Fin 45000"
    by (simp add: first_readable_def thermalPaths_def parseInt_examples)
  have b: "first_readable ?b thermalPaths = Some ''/sys/class/thermal/thermal_zone0/temp''
      \<and> fs_files ?b ''/sys/class/thermal/thermal_zone0/temp'' = Some ''45''
      \<and> parseInt (trim ''45'') = Fin 45"
    by (simp add: first_readable_def thermalPaths_def parseInt_examples)
  have c: "first_readable bare_env thermalPaths = None"
    by (simp add: first_readable_def thermalPaths_def bare_env_def)
  from getCpuTemperature_first_readable[of ?a] a have "getCpuTemperature ?a = JNum (Fin 45)" by blast
  moreover from getCpuTemperature_first_readable[of ?b] b have "getCpuTemperature ?b = JNum (Fin 45)" by blast
  moreover from getCpuTemperature_first_readable[of bare_env] c have "getCpuTemperature bare_env = JNull" by blast
  ultimately show ?thesis by blast
qed

subsection \<open>C7: the CPU percentage\<close>



subsection \<open>C8: the core count\<close>

text \<open>
  Claim C8. The core-count probe follows the fallback order: the number of
  \<^verbatim>\<open>processor\<close> lines of \<^verbatim>\<open>/proc/cpuinfo\<close> when the file can be read and has such a
  line; otherwise (file unreadable, or no such line) the length of \<^verbatim>\<open>os.cpus()\<close>; and
  only when that list is empty too, the default 8. The probe has no error result, and
  the count it returns is positive in every environment.
\<close>

theorem getCpuCoreCount_fallback_chain:
  "(\<forall>cpuinfo. fs_files e ''/proc/cpuinfo'' = Some cpuinfo \<and> 0 < count_processor True cpuinfo
      \<longrightarrow> getCpuCoreCount e = count_processor True cpuinfo)
   \<and> ((fs_files e ''/proc/cpuinfo'' = None
        \<or> (\<exists>cpuinfo. fs_files e ''/proc/cpuinfo'' = Some cpuinfo \<and> count_processor True cpuinfo = 0))
       \<longrightarrow> (os_cpus e \<noteq> [] \<longrightarrow> getCpuCoreCount e = length (os_cpus e))
         \<and> (os_cpus e = [] \<longrightarrow> getCpuCoreCount e = 8))
   \<and> 0 < getCpuCoreCount e"
  by (auto simp: getCpuCoreCount_def Let_def split: option.splits)

theorem getCpuCoreCount_fallback_chain_witness:
  "getCpuCoreCount (bare_env\<lparr>fs_files := [''/proc/cpuinfo'' \<mapsto> two_processor_lines]\<rparr>) = 2
   \<and> getCpuCoreCount (bare_env\<lparr>fs_files := [''/proc/cpuinfo'' \<mapsto> no_processor_line],
         os_cpus := [''a'', ''b'', ''c'', ''d'']\<rparr>) = 4
   \<and> getCpuCoreCount (bare_env\<lparr>os_cpus := [''a'', ''b'', ''c'', ''d'']\<rparr>) = 4
   \<and> getCpuCoreCount bare_env = 8"
proof -
  let ?two = "bare_env\<lparr>fs_files := [''/proc/cpuinfo'' \<mapsto> two_processor_lines]\<rparr>"
  let ?none = "bare_env\<lparr>fs_files := [''/proc/cpuinfo'' \<mapsto> no_processor_line],
         os_cpus := [''a'', ''b'', ''c'', ''d'']\<rparr>"
  let ?cpus = "bare_env\<lparr>os_cpus := [''a'', ''b'', ''c'', ''d'']\<rparr>"
  have c2: "count_processor True two_processor_lines = 2"
    by (simp add: two_processor_lines_def processor_here_def is_js_whitespace_def
        is_line_terminator_def)
  have c0: "count_processor True no_processor_line = 0"
    by (simp add: no_processor_line_def processor_here_def is_js_whitespace_def
        is_line_terminator_def)
  have "getCpuCoreCount ?two = 2"
    using getCpuCoreCount_fallback_chain[of ?two] c2 by (simp add: bare_env_def)
  moreover have "getCpuCoreCount ?none = 4"
    using getCpuCoreCount_fallback_chain[of ?none] c0 by (simp add: bare_env_def)
  moreover have "getCpuCoreCount ?cpus = 4"
    using getCpuCoreCount_fallback_chain[of ?cpus] by (simp add: bare_env_def)
  moreover have "getCpuCoreCount bare_env = 8"
    using getCpuCoreCount_fallback_chain[of bare_env] by (simp add: bare_env_def)
  ultimately show ?thesis by simp
qed

subsection \<open>C9: the byte-size formatter\<close>

text \<open>
  Claim C9, as stated, fails for very large inputs: from \<open>10\<^sup>2\<^sup>1\<close> GiB on, \<^verbatim>\<open>toFixed\<close>
  prints the quotient as \<^verbatim>\<open>Number::toString\<close> does, in exponent notation, and an infinite
  input prints as \<^verbatim>\<open>Infinity GB\<close>; neither has two decimal places.
\<close>

theorem formatBytes_exponent_counterexample:
  "is_double (2 ^ 30 * 10 ^ 21) \<and> (2::rat) ^ 30 \<le> 2 ^ 30 * 10 ^ 21
   \<and> formatBytes (Fin (2 ^ 30 * 10 ^ 21)) = ''1e+21 GB''
   \<and> \<not> two_decimals_GB (formatBytes (Fin (2 ^ 30 * 10 ^ 21)))
   \<and> formatBytes PosInfinity = ''Infinity GB''
   \<and> \<not> two_decimals_GB (formatBytes PosInfinity)"
proof -
  have i: "formatBytes PosInfinity = ''Infinity GB''" by (simp add: formatBytes_def)
  have "is_double (2 ^ 30 * 10 ^ 21)" by (simp add: is_double_def to_double_powers_of_ten)
  moreover have "\<not> two_decimals_GB (formatBytes (Fin (2 ^ 30 * 10 ^ 21)))"
    unfolding formatBytes_1e21 by (simp add: two_decimals_GB_def)
  moreover have "\<not> two_decimals_GB (formatBytes PosInfinity)"
    unfolding i by (simp add: two_decimals_GB_def is_digit_def)
  ultimately show ?thesis using formatBytes_1e21 i by simp
qed

text \<open>
  Claim C9, amended. For every number \<open>x\<close> (a value of binary64, an integer or not):
  if \<open>2\<^sup>3\<^sup>0 \<le> x < 2\<^sup>3\<^sup>0 \<times> 10\<^sup>2\<^sup>1\<close> the result is a decimal numeral with exactly two
  digits after the point, followed by \<^verbatim>\<open> GB\<close>, and its value is within 0.005 of
  \<open>x / 2\<^sup>3\<^sup>0\<close>; if \<open>0 \<le> x < 2\<^sup>3\<^sup>0\<close> it is a whole number within one half of
  \<open>x / 2\<^sup>2\<^sup>0\<close>, followed by \<^verbatim>\<open> MB\<close>; and for a negative \<open>x\<close> above \<open>- 2\<^sup>2\<^sup>0 \<times> 10\<^sup>2\<^sup>1\<close>, as
  the difference of total and free can be, it is such a whole number for \<open>\<bar>x\<bar>\<close> after a
  minus sign (the sign is there for every \<open>x \<le> - 1\<close>; without it the number printed is
  0). In particular \<open>2\<^sup>3\<^sup>0\<close> bytes give \<^verbatim>\<open>1.00 GB\<close>, \<open>2\<^sup>2\<^sup>0\<close> bytes give \<^verbatim>\<open>1 MB\<close>, and
  \<open>2\<^sup>3\<^sup>0 - 1\<close> bytes give \<^verbatim>\<open>1024 MB\<close>. Every count that \<^verbatim>\<open>os.totalmem()\<close> and
  \<^verbatim>\<open>os.freemem()\<close> can report is below \<open>2\<^sup>6\<^sup>4\<close>, hence within these ranges.
\<close>

theorem formatBytes_units:
  assumes "is_double x"
  shows "(2 ^ 30 \<le> x \<and> x < 2 ^ 30 * 10 ^ 21 \<longrightarrow>
           two_decimals_GB (formatBytes (Fin x))
           \<and> (\<exists>n. formatBytes (Fin x) =
                  decimal_digits (n div 100) @ ''.'' @ [digit_char (n div 10 mod 10), digit_char (n mod 10)] @ '' GB''
                \<and> \<bar>(of_nat n :: rat) / 100 - x / 2 ^ 30\<bar> \<le> 1 / 200))
       \<and> (0 \<le> x \<and> x < 2 ^ 30 \<longrightarrow>
           (\<exists>n. formatBytes (Fin x) = decimal_digits n @ '' MB''
                \<and> \<bar>(of_nat n :: rat) - x / 2 ^ 20\<bar> \<le> 1 / 2))
       \<and> (x < 0 \<and> - (2 ^ 20 * 10 ^ 21) < x \<longrightarrow>
           (\<exists>n s. formatBytes (Fin x) = s @ decimal_digits n @ '' MB''
                \<and> (s = ''-'' \<or> s = [] \<and> n = 0) \<and> (x \<le> - 1 \<longrightarrow> s = ''-'')
                \<and> \<bar>(of_nat n :: rat) - \<bar>x\<bar> / 2 ^ 20\<bar> \<le> 1 / 2))
       \<and> formatBytes (Fin (2 ^ 30)) = ''1.00 GB''
       \<and> formatBytes (Fin (2 ^ 20)) = ''1 MB''
       \<and> formatBytes (Fin (2 ^ 30 - 1)) = ''1024 MB''"
proof -
  have d: "to_double 1 = Fin 1" using to_double_of_nat[of 1] by simp
  have e1: "formatBytes (Fin (2 ^ 30)) = ''1.00 GB''"
    by (simp add: formatBytes_def d fixed_digits_def Let_def decimal_digits.simps digit_char_values)
  have 2: "to_double (1 / 1024) = Fin (1 / 1024)" using to_double_scaled[of 1 10] by simp
  have e2: "formatBytes (Fin (2 ^ 20)) = ''1 MB''"
    by (simp add: formatBytes_def d 2 fixed_digits_def Let_def decimal_digits.simps digit_char_values)
  have 3: "to_double (1073741823 / 1073741824) = Fin (1073741823 / 1073741824)"
    "to_double (1073741823 / 1048576) = Fin (1073741823 / 1048576)"
    using to_double_scaled[of 1073741823 30] to_double_scaled[of 1073741823 20] by simp_all
  have e3: "formatBytes (Fin (2 ^ 30 - 1)) = ''1024 MB''"
    by (simp add: formatBytes_def 3 fixed_digits_def Let_def decimal_digits.simps digit_char_values)
  have g: "two_decimals_GB (formatBytes (Fin x))
           \<and> (\<exists>n. formatBytes (Fin x) =
                  decimal_digits (n div 100) @ ''.'' @ [digit_char (n div 10 mod 10), digit_char (n mod 10)] @ '' GB''
                \<and> \<bar>(of_nat n :: rat) / 100 - x / 2 ^ 30\<bar> \<le> 1 / 200)"
    if "2 ^ 30 \<le> x \<and> x < 2 ^ 30 * 10 ^ 21"
  proof -
    from formatBytes_gibibytes[OF assms] that obtain n where
      n: "formatBytes (Fin x) =
            decimal_digits (n div 100) @ ''.'' @ [digit_char (n div 10 mod 10), digit_char (n mod 10)] @ '' GB''"
         "\<bar>(of_nat n :: rat) / 100 - x / 2 ^ 30\<bar> \<le> 1 / 200"
      by blast
    have "two_decimals_GB (formatBytes (Fin x))"
      unfolding n(1) by (rule two_decimals_GB_shape)
    then show ?thesis using n by blast
  qed
  show ?thesis
    using g formatBytes_mebibytes[OF assms] formatBytes_below_zero[OF assms] e1 e2 e3
    by blast
qed

text \<open>
  Instances on either side of the threshold, one beyond \<open>2\<^sup>5\<^sup>3\<close>, and a negative count.
\<close>

theorem formatBytes_units_witness:
  "formatBytes (Fin 8123456789) = ''7.57 GB'' \<and> two_decimals_GB (formatBytes (Fin 8123456789))
   \<and> formatBytes (Fin (2 ^ 60)) = ''1073741824.00 GB''
   \<and> formatBytes (Fin 524288000) = ''500 MB''
   \<and> formatBytes (Fin (- 500000)) = ''-0 MB''"
proof -
  have h: "is_double 8123456789" "is_double 524288000" "is_double (- 500000)" "is_double (2 ^ 60)"
    using to_double_of_nat[of 8123456789] to_double_of_nat[of 524288000]
      to_double_minus[OF to_double_of_nat[of 500000]]
      to_double_eqI[of 60 "2 ^ 60" "2 ^ 52"]
    by (simp_all add: is_double_def)
  from formatBytes_units[OF h(1)] obtain n where
    n: "formatBytes (Fin 8123456789) =
         decimal_digits (n div 100) @ ''.'' @ [digit_char (n div 10 mod 10), digit_char (n mod 10)] @ '' GB''"
       "\<bar>(of_nat n :: rat) / 100 - 8123456789 / 2 ^ 30\<bar> \<le> 1 / 200"
    and t: "two_decimals_GB (formatBytes (Fin 8123456789))"
    by auto
  from n(2) have "(756::rat) < of_nat n" "(of_nat n :: rat) < 758"
    by (simp_all add: abs_le_iff field_simps)
  then have "756 < n" "n < 758"
    using of_nat_less_iff[of 756 n, where ?'a = rat] of_nat_less_iff[of n 758, where ?'a = rat]
    by simp_all
  then have "n = 757" by simp
  then have a: "formatBytes (Fin 8123456789) = ''7.57 GB''"
    using n(1) by (simp add: decimal_digits.simps digit_char_values)
  from formatBytes_units[OF h(4)] obtain q where
    q: "formatBytes (Fin (2 ^ 60)) =
         decimal_digits (q div 100) @ ''.'' @ [digit_char (q div 10 mod 10), digit_char (q mod 10)] @ '' GB''"
       "\<bar>(of_nat q :: rat) / 100 - 2 ^ 60 / 2 ^ 30\<bar> \<le> 1 / 200"
    by auto
  have "(2::rat) ^ 60 / 2 ^ 30 = 1073741824" by simp
  with q(2) have "\<bar>(of_nat q :: rat) / 100 - 1073741824\<bar> \<le> 1 / 200" by (simp only:)
  then have "(107374182399::rat) < of_nat q" "(of_nat q :: rat) < 107374182401"
    by linarith+
  then have "107374182399 < q" "q < 107374182401"
    using of_nat_less_iff[of 107374182399 q, where ?'a = rat]
      of_nat_less_iff[of q 107374182401, where ?'a = rat]
    by simp_all
  then have "q = 107374182400" by simp
  then have b: "formatBytes (Fin (2 ^ 60)) = ''1073741824.00 GB''"
    using q(1) by (simp add: decimal_digits.simps digit_char_values)
  from formatBytes_units[OF h(2)] obtain k where
    k: "formatBytes (Fin 524288000) = decimal_digits k @ '' MB''"
       "\<bar>(of_nat k :: rat) - 524288000 / 2 ^ 20\<bar> \<le> 1 / 2"
    by auto
  from k(2) have "\<bar>(of_nat k :: rat) - 500\<bar> \<le> 1 / 2" by simp
  then have "(499::rat) < of_nat k" "(of_nat k :: rat) < 501" by linarith+
  then have "499 < k" "k < 501"
    using of_nat_less_iff[of 499 k, where ?'a = rat] of_nat_less_iff[of k 501, where ?'a = rat]
    by simp_all
  then have "k = 500" by simp
  then have c: "formatBytes (Fin 524288000) = ''500 MB''"
    using k(1) by (simp add: decimal_digits.simps digit_char_values)
  from formatBytes_units[OF h(3)] obtain j s where
    j: "formatBytes (Fin (- 500000)) = s @ decimal_digits j @ '' MB''"
       "(- 500000 :: rat) \<le> - 1 \<longrightarrow> s = ''-''"
       "\<bar>(of_nat j :: rat) - \<bar>- 500000\<bar> / 2 ^ 20\<bar> \<le> 1 / 2"
    by auto
  from j(3) have "(of_nat j :: rat) < 1" by (simp add: abs_le_iff field_simps)
  then have "j < 1" using of_nat_less_iff[of j 1, where ?'a = rat] by simp
  then have "j = 0" by simp
  moreover have "s = ''-''" using j(2) by simp
  ultimately have "formatBytes (Fin (- 500000)) = ''-0 MB''"
    using j(1) by (simp add: decimal_digits.simps digit_char_values)
  then show ?thesis using a b c t by simp
qed

subsection \<open>C10: a helper document without a level\<close>



end
